theory Spec2Isabelle
  imports Main "HOL-Library.Sublist"
begin

section \<open>JavaScript strings\<close>

text \<open>
  A JavaScript string is modelled as a \<^typ>\<open>string\<close>, one \<^typ>\<open>char\<close> per code unit, and
  the helpers below act on the ASCII range only: \<open>trim\<close> and the class \<open>\s\<close> know the six
  ASCII white-space characters, the case conversions move \<open>a..z\<close> and \<open>A..Z\<close>, and \<open>\w\<close> is
  \<open>[A-Za-z0-9_]\<close>. The quote, double quote and backslash characters are written by code.
\<close>

abbreviation SQ :: char where "SQ \<equiv> CHR 0x27"
abbreviation DQ :: char where "DQ \<equiv> CHR 0x22"
abbreviation BS :: char where "BS \<equiv> CHR 0x5C"
abbreviation LF :: char where "LF \<equiv> CHR 0x0A"
abbreviation CR :: char where "CR \<equiv> CHR 0x0D"
abbreviation TAB :: char where "TAB \<equiv> CHR 0x09"

definition is_space :: "char \<Rightarrow> bool" where
  "is_space c = (c = CHR 0x09 \<or> c = CHR 0x0A \<or> c = CHR 0x0B \<or> c = CHR 0x0C
     \<or> c = CHR 0x0D \<or> c = CHR 0x20)"

definition trim :: "string \<Rightarrow> string" where
  "trim s = rev (dropWhile is_space (rev (dropWhile is_space s)))"

definition lower_letters :: string where
  "lower_letters = ''abcdefghijklmnopqrstuvwxyz''"

definition upper_letters :: string where
  "upper_letters = ''ABCDEFGHIJKLMNOPQRSTUVWXYZ''"

definition digit_chars :: string where
  "digit_chars = ''0123456789''"

text \<open>
  The classes of characters are read off the bits of the code, lowest bit first. The
  letters \<open>a..z\<close> have the codes 0x61 to 0x7A and \<open>A..Z\<close> the codes 0x41 to 0x5A: bit 6 is
  set, bit 7 is not, the low five bits are a number from 1 to 26, and bit 5 tells the
  case. The digits have the codes 0x30 to 0x39.
\<close>

fun letter_index_ok :: "bool \<Rightarrow> bool \<Rightarrow> bool \<Rightarrow> bool \<Rightarrow> bool \<Rightarrow> bool" where
  "letter_index_ok b0 b1 b2 b3 b4 =
     ((b0 \<or> b1 \<or> b2 \<or> b3 \<or> b4) \<and> \<not> (b3 \<and> b4 \<and> (b2 \<or> (b0 \<and> b1))))"

fun is_lower :: "char \<Rightarrow> bool" where
  "is_lower (Char b0 b1 b2 b3 b4 b5 b6 b7) = (b5 \<and> b6 \<and> \<not> b7 \<and> letter_index_ok b0 b1 b2 b3 b4)"

fun is_upper :: "char \<Rightarrow> bool" where
  "is_upper (Char b0 b1 b2 b3 b4 b5 b6 b7) = (\<not> b5 \<and> b6 \<and> \<not> b7 \<and> letter_index_ok b0 b1 b2 b3 b4)"

fun is_digit :: "char \<Rightarrow> bool" where
  "is_digit (Char b0 b1 b2 b3 b4 b5 b6 b7) = (b4 \<and> b5 \<and> \<not> b6 \<and> \<not> b7 \<and> \<not> (b3 \<and> (b1 \<or> b2)))"

fun toUpperCase_char :: "char \<Rightarrow> char" where
  "toUpperCase_char (Char b0 b1 b2 b3 b4 b5 b6 b7) =
     (if is_lower (Char b0 b1 b2 b3 b4 b5 b6 b7) then Char b0 b1 b2 b3 b4 False b6 b7
      else Char b0 b1 b2 b3 b4 b5 b6 b7)"

fun toLowerCase_char :: "char \<Rightarrow> char" where
  "toLowerCase_char (Char b0 b1 b2 b3 b4 b5 b6 b7) =
     (if is_upper (Char b0 b1 b2 b3 b4 b5 b6 b7) then Char b0 b1 b2 b3 b4 True b6 b7
      else Char b0 b1 b2 b3 b4 b5 b6 b7)"

definition toUpperCase :: "string \<Rightarrow> string" where
  "toUpperCase s = map toUpperCase_char s"

definition toLowerCase :: "string \<Rightarrow> string" where
  "toLowerCase s = map toLowerCase_char s"

definition is_word :: "char \<Rightarrow> bool" where
  "is_word c = (is_lower c \<or> is_upper c \<or> is_digit c \<or> c = CHR ''_'')"

definition startsWith :: "string \<Rightarrow> string \<Rightarrow> bool" where
  "startsWith s p = prefix p s"

definition endsWith :: "string \<Rightarrow> string \<Rightarrow> bool" where
  "endsWith s p = prefix (rev p) (rev s)"

fun str_includes :: "string \<Rightarrow> string \<Rightarrow> bool" where
  "str_includes [] p = (p = [])"
| "str_includes (c # cs) p = (prefix p (c # cs) \<or> str_includes cs p)"

text \<open>\<open>s.slice(1, -1)\<close>: the string without its first and its last code unit.\<close>

definition slice_1_m1 :: "string \<Rightarrow> string" where
  "slice_1_m1 s = take (length s - 2) (drop 1 s)"

text \<open>\<open>s.replace(/pat/g, rep)\<close> for a pattern that is a fixed, non-empty string.\<close>

fun replace_all :: "string \<Rightarrow> string \<Rightarrow> string \<Rightarrow> string" where
  "replace_all pat rep [] = []"
| "replace_all pat rep (c # cs) =
     (if pat \<noteq> [] \<and> prefix pat (c # cs)
      then rep @ replace_all pat rep (drop (length pat) (c # cs))
      else c # replace_all pat rep cs)"

text \<open>The exception that a call on \<open>undefined\<close> or \<open>null\<close> throws.\<close>

datatype js_error = TypeError

section \<open>TableParser: the rows of an INSERT statement\<close>

subsection \<open>extractRowStrings\<close>

text \<open>
  The loop of \<open>extractRowStrings\<close> over the characters still to be read. The arguments are
  the local variables \<open>rows\<close>, \<open>buffer\<close>, \<open>inSingle\<close>, \<open>inDouble\<close>, \<open>escape\<close> and \<open>depth\<close>;
  the lookahead \<open>next\<close> is the head of the rest, and \<open>i++\<close> drops it.
\<close>

definition close_row :: "string \<Rightarrow> string" where
  "close_row buffer =
     (if startsWith buffer ''('' \<and> endsWith buffer '')''
      then take (length buffer - 1 - 1) (drop 1 buffer) else buffer)"

fun ers_loop :: "string list \<Rightarrow> string \<Rightarrow> bool \<Rightarrow> bool \<Rightarrow> bool \<Rightarrow> int \<Rightarrow> string \<Rightarrow> string list" where
  "ers_loop rows buffer inSingle inDouble escape depth [] = rows"
| "ers_loop rows buffer inSingle inDouble escape depth (c # cs) =
     (if escape then ers_loop rows (buffer @ [c]) inSingle inDouble False depth cs
      else if c = BS then ers_loop rows (buffer @ [c]) inSingle inDouble True depth cs
      else if c = SQ \<and> \<not> inDouble then
        (case cs of
           n # cs' \<Rightarrow>
             if inSingle \<and> n = SQ
             then ers_loop rows (buffer @ [c, n]) inSingle inDouble escape depth cs'
             else ers_loop rows (buffer @ [c]) (\<not> inSingle) inDouble escape depth cs
         | [] \<Rightarrow> ers_loop rows (buffer @ [c]) (\<not> inSingle) inDouble escape depth cs)
      else if c = DQ \<and> \<not> inSingle then
        (case cs of
           n # cs' \<Rightarrow>
             if inDouble \<and> n = DQ
             then ers_loop rows (buffer @ [c, n]) inSingle inDouble escape depth cs'
             else ers_loop rows (buffer @ [c]) inSingle (\<not> inDouble) escape depth cs
         | [] \<Rightarrow> ers_loop rows (buffer @ [c]) inSingle (\<not> inDouble) escape depth cs)
      else if c = CHR ''('' \<and> \<not> inSingle \<and> \<not> inDouble then
        ers_loop rows ((if depth = 0 then [] else buffer) @ [c]) inSingle inDouble escape
          (depth + 1) cs
      else if c = CHR '')'' \<and> \<not> inSingle \<and> \<not> inDouble then
        (if depth - 1 = 0
         then ers_loop (rows @ [close_row (buffer @ [c])]) [] inSingle inDouble escape
                (depth - 1) cs
         else ers_loop rows (buffer @ [c]) inSingle inDouble escape (depth - 1) cs)
      else ers_loop rows (buffer @ [c]) inSingle inDouble escape depth cs)"

definition extractRowStrings :: "string \<Rightarrow> string list" where
  "extractRowStrings valueSection = ers_loop [] [] False False False 0 valueSection"

subsection \<open>parseRow\<close>

text \<open>
  The values a row holds: \<open>null\<close>, a boolean, a number or a string. \<open>Number(trimmed)\<close> is
  an IEEE double; the model evaluates it where it is an exact integer (a decimal integer
  literal, optionally signed, of magnitude at most \<open>2^53 = 9007199254740992\<close> and other
  than \<open>-0\<close>) and keeps
  the literal otherwise: \<open>JNumLit s\<close> stands for the double \<open>Number(s)\<close>.
\<close>

datatype js_value = JNull | JBool bool | JNum int | JNumLit string | JStr string

definition is_digits :: "string \<Rightarrow> bool" where
  "is_digits s = (s \<noteq> [] \<and> list_all is_digit s)"

definition strip_sign :: "string \<Rightarrow> string" where
  "strip_sign s = (case s of [] \<Rightarrow> [] | c # r \<Rightarrow> if c = CHR ''+'' \<or> c = CHR ''-'' then r else s)"

definition is_exponent_part :: "string \<Rightarrow> bool" where
  "is_exponent_part e =
     (case e of [] \<Rightarrow> True
      | c # r \<Rightarrow> (c = CHR ''e'' \<or> c = CHR ''E'') \<and> is_digits (strip_sign r))"

definition is_unsigned_decimal :: "string \<Rightarrow> bool" where
  "is_unsigned_decimal s =
     (let ip = takeWhile is_digit s; r = dropWhile is_digit s in
      case r of
        [] \<Rightarrow> ip \<noteq> []
      | c # r' \<Rightarrow>
          if c = CHR ''.''
          then (ip \<noteq> [] \<or> takeWhile is_digit r' \<noteq> []) \<and> is_exponent_part (dropWhile is_digit r')
          else ip \<noteq> [] \<and> is_exponent_part r)"

definition is_radix_literal :: "string \<Rightarrow> bool" where
  "is_radix_literal s =
     (case s of
        z # x # r \<Rightarrow>
          z = CHR ''0'' \<and> r \<noteq> [] \<and>
          (if x = CHR ''x'' \<or> x = CHR ''X''
           then list_all (\<lambda>c. is_digit c \<or> c \<in> set ''abcdefABCDEF'') r
           else if x = CHR ''o'' \<or> x = CHR ''O'' then list_all (\<lambda>c. c \<in> set ''01234567'') r
           else if x = CHR ''b'' \<or> x = CHR ''B'' then list_all (\<lambda>c. c \<in> set ''01'') r
           else False)
      | _ \<Rightarrow> False)"

text \<open>
  \<open>!isNaN(trimmed)\<close> for a string without white space around it and other than the empty
  string: the string is a \<open>StrNumericLiteral\<close> of ECMAScript.
\<close>

definition is_numeric_string :: "string \<Rightarrow> bool" where
  "is_numeric_string s =
     (is_unsigned_decimal (strip_sign s) \<or> strip_sign s = ''Infinity'' \<or> is_radix_literal s)"

definition digit_value :: "char \<Rightarrow> int" where
  "digit_value c =
     (case map_of (zip digit_chars [0, 1, 2, 3, 4, 5, 6, 7, 8, 9]) c of None \<Rightarrow> 0 | Some d \<Rightarrow> d)"

definition decimal_value :: "string \<Rightarrow> int" where
  "decimal_value s = foldl (\<lambda>acc c. 10 * acc + digit_value c) 0 s"

definition js_Number :: "string \<Rightarrow> js_value" where
  "js_Number s =
     (let m = strip_sign s; v = decimal_value m in
      if is_digits m \<and> v \<le> 9007199254740992 \<and> \<not> (v = 0 \<and> startsWith s ''-'')
      then JNum (if startsWith s ''-'' then - v else v)
      else JNumLit s)"

text \<open>
  The second replacement of a single-quoted value, \<open>.replace(/\\(["'\\])/g, '$1')\<close>: a
  backslash followed by a double quote, a quote or a backslash is dropped.
\<close>

fun unescape_backslash :: "string \<Rightarrow> string" where
  "unescape_backslash (b # c # cs) =
     (if b = BS \<and> (c = DQ \<or> c = SQ \<or> c = BS) then c # unescape_backslash cs
      else b # unescape_backslash (c # cs))"
| "unescape_backslash cs = cs"

text \<open>\<open>pushValue\<close>: the value that the text accumulated in \<open>current\<close> stands for.\<close>

definition pushValue :: "string \<Rightarrow> js_value" where
  "pushValue current =
     (let trimmed = trim current in
      if trimmed = [] then JStr []
      else if toLowerCase trimmed = ''null'' then JNull
      else if toLowerCase trimmed = ''true'' then JBool True
      else if toLowerCase trimmed = ''false'' then JBool False
      else if startsWith trimmed [SQ] \<and> endsWith trimmed [SQ]
      then JStr (unescape_backslash (replace_all [SQ, SQ] [SQ] (slice_1_m1 trimmed)))
      else if startsWith trimmed [DQ] \<and> endsWith trimmed [DQ]
      then JStr (replace_all [BS, DQ] [DQ] (replace_all [BS, BS] [BS]
                  (replace_all [SQ, SQ] [SQ] (slice_1_m1 trimmed))))
      else if is_numeric_string trimmed \<and> trimmed \<noteq> [] then js_Number trimmed
      else JStr trimmed)"

fun parseRow_loop :: "js_value list \<Rightarrow> string \<Rightarrow> bool \<Rightarrow> bool \<Rightarrow> bool \<Rightarrow> string \<Rightarrow> js_value list" where
  "parseRow_loop vals current inSingle inDouble escape [] = vals @ [pushValue current]"
| "parseRow_loop vals current inSingle inDouble escape (c # cs) =
     (if escape then parseRow_loop vals (current @ [c]) inSingle inDouble False cs
      else if c = BS then parseRow_loop vals (current @ [c]) inSingle inDouble True cs
      else if c = SQ \<and> \<not> inDouble then
        (case cs of
           n # cs' \<Rightarrow>
             if inSingle \<and> n = SQ
             then parseRow_loop vals (current @ [c, n]) inSingle inDouble escape cs'
             else parseRow_loop vals (current @ [c]) (\<not> inSingle) inDouble escape cs
         | [] \<Rightarrow> parseRow_loop vals (current @ [c]) (\<not> inSingle) inDouble escape cs)
      else if c = DQ \<and> \<not> inSingle then
        (case cs of
           n # cs' \<Rightarrow>
             if inDouble \<and> n = DQ
             then parseRow_loop vals (current @ [c, n]) inSingle inDouble escape cs'
             else parseRow_loop vals (current @ [c]) inSingle (\<not> inDouble) escape cs
         | [] \<Rightarrow> parseRow_loop vals (current @ [c]) inSingle (\<not> inDouble) escape cs)
      else if c = CHR '','' \<and> \<not> inSingle \<and> \<not> inDouble then
        parseRow_loop (vals @ [pushValue current]) [] inSingle inDouble escape cs
      else parseRow_loop vals (current @ [c]) inSingle inDouble escape cs)"

definition parseRow :: "string \<Rightarrow> js_value list" where
  "parseRow rowContent = parseRow_loop [] [] False False False rowContent"

subsection \<open>VALUES sections with n top-level groups\<close>

text \<open>
  The property of \<open>extractRowStrings\<close> speaks of the top-level parenthesised groups of a
  VALUES section. This is the grammar of such sections, written from the specification and
  not from the scanner: a section is a sequence of items, an item being a plain character,
  a backslash followed by any character, a quoted literal, or a group \<open>( ... )\<close> of items.
  Inside a literal quoted by \<open>q\<close> stand characters other than \<open>q\<close> and the backslash
  (commas, parentheses and the other quote character among them), doubled quotes \<open>qq\<close>,
  and backslash escapes. The top-level groups of a section are its \<open>Group\<close> items.
\<close>

datatype piece = PChar char | PPair | PEsc char

datatype item = Plain char | Esc char | SQuoted "piece list" | DQuoted "piece list"
  | Group "item list"

primrec render_piece :: "char \<Rightarrow> piece \<Rightarrow> string" where
  "render_piece q (PChar c) = [c]"
| "render_piece q PPair = [q, q]"
| "render_piece q (PEsc c) = [BS, c]"

primrec wf_piece :: "char \<Rightarrow> piece \<Rightarrow> bool" where
  "wf_piece q (PChar c) = (c \<noteq> BS \<and> c \<noteq> q)"
| "wf_piece q PPair = True"
| "wf_piece q (PEsc c) = True"

definition render_pieces :: "char \<Rightarrow> piece list \<Rightarrow> string" where
  "render_pieces q ps = concat (map (render_piece q) ps)"

primrec render_item :: "item \<Rightarrow> string" where
  "render_item (Plain c) = [c]"
| "render_item (Esc c) = [BS, c]"
| "render_item (SQuoted ps) = [SQ] @ render_pieces SQ ps @ [SQ]"
| "render_item (DQuoted ps) = [DQ] @ render_pieces DQ ps @ [DQ]"
| "render_item (Group b) = ''('' @ concat (map render_item b) @ '')''"

definition render_items :: "item list \<Rightarrow> string" where
  "render_items its = concat (map render_item its)"

text \<open>
  A literal ends at its closing quote: the text after it does not begin with a quote of
  the same kind, which would read as a doubled quote inside the literal.
\<close>

primrec follows_ok :: "item \<Rightarrow> string \<Rightarrow> bool" where
  "follows_ok (Plain c) s = True"
| "follows_ok (Esc c) s = True"
| "follows_ok (SQuoted ps) s = (\<not> startsWith s [SQ])"
| "follows_ok (DQuoted ps) s = (\<not> startsWith s [DQ])"
| "follows_ok (Group b) s = True"

primrec adjacent_ok :: "item list \<Rightarrow> string \<Rightarrow> bool" where
  "adjacent_ok [] s = True"
| "adjacent_ok (x # r) s = (follows_ok x (render_items r @ s) \<and> adjacent_ok r s)"

primrec wf_item :: "item \<Rightarrow> bool" where
  "wf_item (Plain c) = (c \<noteq> BS \<and> c \<noteq> SQ \<and> c \<noteq> DQ \<and> c \<noteq> CHR ''('' \<and> c \<noteq> CHR '')'')"
| "wf_item (Esc c) = True"
| "wf_item (SQuoted ps) = list_all (wf_piece SQ) ps"
| "wf_item (DQuoted ps) = list_all (wf_piece DQ) ps"
| "wf_item (Group b) = (list_all wf_item b \<and> adjacent_ok b '')'')"

fun group_bodies :: "item list \<Rightarrow> item list list" where
  "group_bodies [] = []"
| "group_bodies (Group b # r) = b # group_bodies r"
| "group_bodies (x # r) = group_bodies r"

text \<open>Inside a group (\<open>depth > 0\<close>) the scanner appends a well-formed item to the buffer.\<close>

definition scans_item :: "item \<Rightarrow> bool" where
  "scans_item x = (\<forall>rows buf d rest. 0 < d \<longrightarrow> wf_item x \<longrightarrow> follows_ok x rest \<longrightarrow>
     ers_loop rows buf False False False d (render_item x @ rest)
     = ers_loop rows (buf @ render_item x) False False False d rest)"

text \<open>
  A section with two top-level groups: \<open> (1,'a),''"\'(',(x)),("(""'")\<close>. The first holds a
  literal with a parenthesis, a comma, a doubled quote, a double quote, an escaped quote
  and an opening parenthesis, and a nested group; the second a double-quoted literal.
\<close>

definition example_row1 :: "item list" where
  "example_row1 =
     [Plain CHR ''1'', Plain CHR '','',
      SQuoted [PChar CHR ''a'', PChar CHR '')'', PChar CHR '','', PPair, PChar DQ, PEsc SQ,
               PChar CHR ''(''],
      Plain CHR '','', Group [Plain CHR ''x'']]"

definition example_row2 :: "item list" where
  "example_row2 = [DQuoted [PChar CHR ''('', PPair, PChar SQ]]"

definition example_values :: "item list" where
  "example_values = [Plain CHR '' '', Group example_row1, Plain CHR '','', Group example_row2]"

section \<open>SQLParser: the dependency depth of entities\<close>

text \<open>
  Of an entity the depth calculation reads the name and the names of the columns, and it
  writes the field \<open>depth\<close>; \<open>ent_depth\<close> is that field, whose value before the call is
  not read.
\<close>

record column =
  col_name :: string

record entity =
  ent_name :: string
  ent_columns :: "column list"
  ent_depth :: nat

text \<open>
  \<open>nameToEntity\<close> and \<open>graph\<close> are plain objects, and a read \<open>obj[name]\<close> of a name that is
  not an own property finds the property that every object inherits from
  \<open>Object.prototype\<close>. These are the inherited names: eleven functions, listed with their
  \<open>length\<close>, and the accessor \<open>__proto__\<close>, whose value on a plain object is
  \<open>Object.prototype\<close> itself, an object without a \<open>length\<close>.
\<close>

definition object_prototype :: "(string \<times> nat option) list" where
  "object_prototype =
     [(''constructor'', Some 1), (''__defineGetter__'', Some 2), (''__defineSetter__'', Some 2),
      (''hasOwnProperty'', Some 1), (''__lookupGetter__'', Some 1), (''__lookupSetter__'', Some 1),
      (''isPrototypeOf'', Some 1), (''propertyIsEnumerable'', Some 1), (''toString'', Some 0),
      (''valueOf'', Some 0), (''__proto__'', None), (''toLocaleString'', Some 0)]"

text \<open>
  The references of an entity: the columns whose name ends with \<open>_id\<close>, without that
  suffix (\<open>replace(/_id$/, '')\<close>), other than the entity itself and with a truthy
  \<open>nameToEntity[ref]\<close>. \<open>Object.fromEntries\<close> gives \<open>nameToEntity\<close> one own property for
  each name of an entity, the entity; every other read yields the inherited property, a
  function or an object and as such truthy, or \<open>undefined\<close>. The first argument is the
  list of the names of the entities.
\<close>

definition references :: "string list \<Rightarrow> entity \<Rightarrow> string list" where
  "references nameToEntity e =
     filter (\<lambda>ref. ref \<noteq> ent_name e
                \<and> (ref \<in> set nameToEntity \<or> ref \<in> set (map fst object_prototype)))
       (map (\<lambda>col. take (length (col_name col) - 3) (col_name col))
          (filter (\<lambda>col. endsWith (col_name col) ''_id'') (ent_columns e)))"

text \<open>
  The object \<open>graph\<close> as an association list. The loop assigns \<open>graph[entity.name]\<close> for
  each entity in turn, so that a later entity of the same name overwrites an earlier one: the
  list holds the entities in reverse order and \<open>map_of\<close> finds the last assignment.
  The assignment to the name \<open>__proto__\<close> stores no own property: it makes the array the
  prototype of \<open>graph\<close>, and the read \<open>graph['__proto__']\<close> yields the prototype, that is
  the array last assigned, as for any other name. With an array as the prototype the
  inherited names are still functions of the same \<open>length\<close> (\<open>constructor\<close>, \<open>toString\<close> and
  \<open>toLocaleString\<close> are then those of \<open>Array.prototype\<close>), and the names that arrays add are
  never read, as a reference has a truthy \<open>nameToEntity[ref]\<close>.
\<close>

type_synonym graph = "(string \<times> string list) list"

definition build_graph :: "entity list \<Rightarrow> graph" where
  "build_graph entities =
     rev (map (\<lambda>e. (ent_name e, references (map ent_name entities) e)) entities)"

text \<open>
  The value of \<open>graph[entityName] || []\<close>: the array assigned for the name, or else the
  inherited function or object, or else, for \<open>undefined\<close>, the empty array.
\<close>

datatype js_parents = Array "string list" | Function nat | Object

definition graph_get :: "graph \<Rightarrow> string \<Rightarrow> js_parents" where
  "graph_get g n =
     (case map_of g n of
        Some ps \<Rightarrow> Array ps
      | None \<Rightarrow>
          (case map_of object_prototype n of
             Some (Some k) \<Rightarrow> Function k
           | Some None \<Rightarrow> Object
           | None \<Rightarrow> Array []))"

text \<open>
  \<open>dfs\<close> with the memo table \<open>visited\<close> passed in and returned. \<open>dfs_parents\<close> is
  \<open>parents.map(p => dfs(p, new Set(seen)))\<close>: the calls run from left to right, each on a
  copy of \<open>seen\<close> and on the table its predecessor left. When \<open>parents\<close> is a function,
  \<open>parents.length > 0\<close> compares its number of parameters and \<open>parents.map\<close> is
  \<open>undefined\<close>, whose call throws; when it is \<open>Object.prototype\<close>, \<open>parents.length\<close> is
  \<open>undefined\<close> and the comparison is false. Nothing catches the exception. Every call of
  \<open>dfs\<close> that recurs adds a name to \<open>seen\<close>, and only the keys of the graph have parents:
  this is the termination argument.
\<close>

function dfs :: "graph \<Rightarrow> (string \<rightharpoonup> nat) \<Rightarrow> string set \<Rightarrow> string
      \<Rightarrow> js_error + nat \<times> (string \<rightharpoonup> nat)"
  and dfs_parents :: "graph \<Rightarrow> (string \<rightharpoonup> nat) \<Rightarrow> string set \<Rightarrow> string list
      \<Rightarrow> js_error + nat list \<times> (string \<rightharpoonup> nat)"
where
  "dfs g visited seen entityName =
     (case visited entityName of
        Some d \<Rightarrow> Inr (d, visited)
      | None \<Rightarrow>
          if entityName \<in> seen then Inr (0, visited)
          else
            (case graph_get g entityName of
               Array parents \<Rightarrow>
                 (case dfs_parents g visited (insert entityName seen) parents of
                    Inl e \<Rightarrow> Inl e
                  | Inr (ds, visited') \<Rightarrow>
                      (let maxDepth = (if length parents > 0 then Max (set ds) else 0);
                           depth = maxDepth + 1
                       in Inr (depth, visited'(entityName \<mapsto> depth))))
             | Function k \<Rightarrow>
                 if k > 0 then Inl TypeError else Inr (1, visited(entityName \<mapsto> 1))
             | Object \<Rightarrow> Inr (1, visited(entityName \<mapsto> 1))))"
| "dfs_parents g visited seen [] = Inr ([], visited)"
| "dfs_parents g visited seen (p # ps) =
     (case dfs g visited seen p of
        Inl e \<Rightarrow> Inl e
      | Inr (d, visited1) \<Rightarrow>
          (case dfs_parents g visited1 seen ps of
             Inl e \<Rightarrow> Inl e
           | Inr (ds, visited2) \<Rightarrow> Inr (d # ds, visited2)))"
  by pat_completeness auto
termination
proof (relation "measures
    [\<lambda>x. case x of Inl (g, v, seen, n) \<Rightarrow> card (set (map fst g) - seen)
                | Inr (g, v, seen, ps) \<Rightarrow> card (set (map fst g) - seen),
     \<lambda>x. case x of Inl (g, v, seen, n) \<Rightarrow> 1
                | Inr (g, v, seen, ps) \<Rightarrow> 2 * length ps]", goal_cases)
  case 1
  then show ?case by simp
next
  case (2 g visited seen entityName parents)
  show ?case
  proof (cases "entityName \<in> set (map fst g)")
    case True
    with 2 have "card (set (map fst g) - insert entityName seen) < card (set (map fst g) - seen)"
      by (intro psubset_card_mono) auto
    then show ?thesis by simp
  next
    case False
    then have "map_of g entityName = None" by (simp add: map_of_eq_None_iff)
    with 2 have "parents = []"
      by (auto simp: graph_get_def split: option.splits)
    moreover have "set (map fst g) - insert entityName seen = set (map fst g) - seen"
      using False by auto
    ultimately show ?thesis by simp
  qed
next
  case 3
  then show ?case by simp
next
  case 4
  then show ?case by simp
qed

text \<open>
  The loop \<open>for (const entity of entities) entity.depth = dfs(entity.name)\<close>. When \<open>dfs\<close>
  throws, the call ends with the exception and returns no list.
\<close>

fun depth_loop :: "graph \<Rightarrow> (string \<rightharpoonup> nat) \<Rightarrow> entity list \<Rightarrow> js_error + entity list" where
  "depth_loop g visited [] = Inr []"
| "depth_loop g visited (e # es) =
     (case dfs g visited {} (ent_name e) of
        Inl err \<Rightarrow> Inl err
      | Inr (d, visited') \<Rightarrow>
          (case depth_loop g visited' es of
             Inl err \<Rightarrow> Inl err
           | Inr es' \<Rightarrow> Inr (e\<lparr>ent_depth := d\<rparr> # es')))"

definition calculateEntityDepth :: "entity list \<Rightarrow> bool \<Rightarrow> js_error + entity list" where
  "calculateEntityDepth entities reverse =
     (let graph = build_graph entities in
      case depth_loop graph Map.empty entities of
        Inl err \<Rightarrow> Inl err
      | Inr entities' \<Rightarrow>
          if reverse
          then (let maxDepth = Max (set (map ent_depth entities'))
                in Inr (map (\<lambda>e. e\<lparr>ent_depth := maxDepth - ent_depth e\<rparr>) entities'))
          else Inr entities')"

text \<open>The depth that a result list gives to a name: that of the first entity of the name.\<close>

definition depth_of :: "entity list \<Rightarrow> string \<Rightarrow> nat" where
  "depth_of es n = (case find (\<lambda>e. ent_name e = n) es of None \<Rightarrow> 0 | Some e \<Rightarrow> ent_depth e)"

definition mk_entity :: "string \<Rightarrow> string list \<Rightarrow> entity" where
  "mk_entity n cols = \<lparr>ent_name = n, ent_columns = map (\<lambda>c. \<lparr>col_name = c\<rparr>) cols, ent_depth = 0\<rparr>"

text \<open>
  Every reference that the code infers is the name of an entity: no column is named after
  an inherited property, as \<open>toString_id\<close> or \<open>constructor_id\<close> are, unless an entity has
  that name.
\<close>

definition refers_to_entities :: "entity list \<Rightarrow> bool" where
  "refers_to_entities es =
     list_all (\<lambda>e. list_all (\<lambda>ref. ref \<in> set (map ent_name es))
                      (references (map ent_name es) e)) es"

text \<open>The entity has a column that references the entity of the name \<open>n\<close>.\<close>

definition has_reference_column :: "entity \<Rightarrow> string \<Rightarrow> bool" where
  "has_reference_column e n = (\<lparr>col_name = n @ ''_id''\<rparr> \<in> set (ent_columns e))"

text \<open>The diamond: \<open>b\<close> and \<open>c\<close> reference \<open>a\<close>, and \<open>d\<close> references \<open>b\<close> and \<open>c\<close>.\<close>

definition diamond :: "entity list" where
  "diamond = [mk_entity ''a'' [''id'', ''label''], mk_entity ''b'' [''id'', ''a_id''],
              mk_entity ''c'' [''id'', ''a_id''], mk_entity ''d'' [''id'', ''b_id'', ''c_id'']]"

definition diamond_rank :: "string \<Rightarrow> nat" where
  "diamond_rank n = (if n = ''a'' then 0 else if n = ''d'' then 2 else 1)"

text \<open>The cycle of two entities, each with a column that references the other.\<close>

definition cycle2 :: "string \<Rightarrow> string \<Rightarrow> entity list" where
  "cycle2 a b = [mk_entity a [b @ ''_id''], mk_entity b [a @ ''_id'']]"

text \<open>Two tables with a key, a reference to the other table and a column of their own.\<close>

definition orders :: entity where
  "orders = mk_entity ''orders'' [''id'', ''users_id'', ''total'']"

definition users :: entity where
  "users = mk_entity ''users'' [''id'', ''name'', ''orders_id'']"

text \<open>
  Cycles of two entities with a further column that ends in \<open>_id\<close>: the entity \<open>a\<close> has the
  columns \<open>b_id\<close> and \<open>constructor_id\<close>, or the entity \<open>b\<close> the columns \<open>a_id\<close> and
  \<open>toString_id\<close>; no entity is named \<open>constructor\<close> or \<open>toString\<close>.
\<close>

definition cycle2_constructor :: "entity list" where
  "cycle2_constructor =
     [mk_entity ''a'' [''id'', ''b_id'', ''constructor_id''], mk_entity ''b'' [''id'', ''a_id'']]"

definition cycle2_toString :: "entity list" where
  "cycle2_toString =
     [mk_entity ''a'' [''id'', ''b_id''], mk_entity ''b'' [''id'', ''a_id'', ''toString_id'']]"

text \<open>Two entities of one name, the first with a reference to \<open>b\<close>, and the entity \<open>b\<close>.\<close>

definition same_name :: "entity list" where
  "same_name = [mk_entity ''a'' [''b_id''], mk_entity ''a'' [''id''], mk_entity ''b'' [''id'']]"

text \<open>
  The array that the loop stored in the graph for a name, empty for a name without one.
  The memo table is sound when every name it holds has these parents in the table and the
  depth one more than the greatest depth of the parents (1 without parents).
\<close>

definition stored_parents :: "graph \<Rightarrow> string \<Rightarrow> string list" where
  "stored_parents g n = (case map_of g n of None \<Rightarrow> [] | Some ps \<Rightarrow> ps)"

definition depth_formula :: "graph \<Rightarrow> (string \<Rightarrow> nat) \<Rightarrow> string \<Rightarrow> nat" where
  "depth_formula g depth n =
     (if stored_parents g n = [] then 1 else 1 + Max (depth ` set (stored_parents g n)))"

definition sound_memo :: "graph \<Rightarrow> (string \<rightharpoonup> nat) \<Rightarrow> bool" where
  "sound_memo g v = (\<forall>n d. v n = Some d \<longrightarrow>
     set (stored_parents g n) \<subseteq> dom v \<and> d = depth_formula g (\<lambda>p. the (v p)) n)"

text \<open>
  What a call of \<open>dfs\<close> and of \<open>dfs_parents\<close> achieves on a sound table, when no name on
  the current path can be met again: the call returns, the table stays sound and only
  grows, the names asked for are in it with the depths returned, and the names added rank
  no higher than the names asked for.
\<close>

definition dfs_post :: "graph \<Rightarrow> (string \<Rightarrow> nat) \<Rightarrow> (string \<rightharpoonup> nat) \<Rightarrow> string
    \<Rightarrow> js_error + nat \<times> (string \<rightharpoonup> nat) \<Rightarrow> bool" where
  "dfs_post g rank v n res =
     (case res of
        Inl e \<Rightarrow> False
      | Inr (d, v') \<Rightarrow>
          sound_memo g v' \<and> v \<subseteq>\<^sub>m v' \<and> v' n = Some d \<and>
          (\<forall>m. v m = None \<and> v' m \<noteq> None \<longrightarrow> rank m \<le> rank n))"

definition dfs_parents_post :: "graph \<Rightarrow> (string \<Rightarrow> nat) \<Rightarrow> (string \<rightharpoonup> nat) \<Rightarrow> string list
    \<Rightarrow> js_error + nat list \<times> (string \<rightharpoonup> nat) \<Rightarrow> bool" where
  "dfs_parents_post g rank v ps res =
     (case res of
        Inl e \<Rightarrow> False
      | Inr (ds, v') \<Rightarrow>
          sound_memo g v' \<and> v \<subseteq>\<^sub>m v' \<and> list_all2 (\<lambda>p d. v' p = Some d) ps ds \<and>
          (\<forall>m. v m = None \<and> v' m \<noteq> None \<longrightarrow> (\<exists>p \<in> set ps. rank m \<le> rank p)))"

definition ranked :: "graph \<Rightarrow> (string \<Rightarrow> nat) \<Rightarrow> bool" where
  "ranked g rank = (\<forall>n p. p \<in> set (stored_parents g n) \<longrightarrow> rank p < rank n)"

text \<open>Every name in an array of the graph has an array of its own.\<close>

definition closed_graph :: "graph \<Rightarrow> bool" where
  "closed_graph g = (\<forall>n. set (stored_parents g n) \<subseteq> fst ` set g)"

section \<open>SQLConverter and SQLParser: type names across dialects\<close>

subsection \<open>SQLParser.toMySqlType\<close>

text \<open>
  The ordered \<open>typeMap\<close> of \<open>SQLParser.toMySqlType\<close>. Each pattern is an unanchored regular
  expression made of alternative words, so that it matches a type that contains one of
  the words.
\<close>

definition sqlite_typeMap :: "(string list \<times> string) list" where
  "sqlite_typeMap =
     [([''NVARCHAR''], ''VARCHAR''),
      ([''INT''], ''BIGINT''),
      ([''CHAR'', ''CLOB'', ''TEXT''], ''TEXT''),
      ([''BLOB''], ''BLOB''),
      ([''REAL'', ''FLOA'', ''DOUB''], ''DOUBLE''),
      ([''NUMERIC'', ''DECIMAL''], ''DECIMAL''),
      ([''BOOLEAN''], ''TINYINT''),
      ([''TIMESTAMP''], ''TIMESTAMP''),
      ([''DATE'', ''TIME''], ''DATETIME'')]"

definition pattern_test :: "string list \<Rightarrow> string \<Rightarrow> bool" where
  "pattern_test words s = list_ex (str_includes s) words"

text \<open>
  \<open>toMySqlType(sqliteType)\<close>: the empty string is falsy and gives \<open>TEXT\<close>; otherwise the
  first pattern that matches the trimmed, upper-cased type decides, and without a match the
  argument itself is returned.
\<close>

definition toMySqlType :: "string \<Rightarrow> string" where
  "toMySqlType sqliteType =
     (if sqliteType = [] then ''TEXT''
      else case find (\<lambda>(pattern, mysqlType). pattern_test pattern (toUpperCase (trim sqliteType)))
                  sqlite_typeMap of
             Some (pattern, mysqlType) \<Rightarrow> mysqlType
           | None \<Rightarrow> sqliteType)"

subsection \<open>SQLConverter\<close>

text \<open>
  The mapping objects of the constructor, in the order of their keys (the order in which
  \<open>for (let i in ...)\<close> visits them).
\<close>

definition dbToSqlite :: "(string \<times> string) list" where
  "dbToSqlite =
     [(''int'', ''INTEGER''), (''bit'', ''BOOLEAN''), (''tinyint(1)'', ''BOOLEAN''),
      (''tinyint'', ''INTEGER''), (''smallint'', ''INTEGER''), (''mediumint'', ''INTEGER''),
      (''bigint'', ''INTEGER''), (''real'', ''REAL''), (''float'', ''REAL''),
      (''double'', ''REAL''), (''decimal'', ''REAL''), (''nvarchar'', ''NVARCHAR''),
      (''varchar'', ''NVARCHAR''), (''character varying'', ''NVARCHAR''),
      (''char'', ''NVARCHAR''), (''tinytext'', ''TEXT''), (''mediumtext'', ''TEXT''),
      (''longtext'', ''TEXT''), (''text'', ''TEXT''), (''datetime2'', ''TIMESTAMP''),
      (''datetime'', ''DATETIME''), (''timestamp'', ''TIMESTAMP''), (''date'', ''DATE''),
      (''time'', ''TIME''), (''year'', ''INTEGER''), (''boolean'', ''INTEGER''),
      (''json'', ''TEXT''), (''jsonb'', ''TEXT''), (''integer'', ''INTEGER''),
      (''serial'', ''INTEGER''), (''bigserial'', ''INTEGER''),
      (''double precision'', ''REAL''), (''timestamptz'', ''TIMESTAMP'')]"

definition dbToMySQL :: "(string \<times> string) list" where
  "dbToMySQL =
     [(''bigint'', ''BIGINT''), (''bigserial'', ''BIGINT''), (''serial'', ''BIGINT''),
      (''mediumint'', ''MEDIUMINT''), (''smallint'', ''SMALLINT''), (''integer'', ''INT''),
      (''double'', ''DOUBLE''), (''float'', ''FLOAT''), (''real'', ''DOUBLE''),
      (''decimal'', ''DECIMAL''), (''numeric'', ''NUMERIC''), (''tinytext'', ''TINYTEXT''),
      (''mediumtext'', ''MEDIUMTEXT''), (''longtext'', ''LONGTEXT''), (''text'', ''TEXT''),
      (''nvarchar'', ''VARCHAR''), (''varchar'', ''VARCHAR''),
      (''character varying'', ''VARCHAR''), (''tinyint(1)'', ''TINYINT(1)''),
      (''tinyint'', ''TINYINT''), (''boolean'', ''TINYINT(1)''), (''bit'', ''TINYINT(1)''),
      (''int'', ''INT''), (''datetime2'', ''TIMESTAMP''), (''datetime'', ''DATETIME''),
      (''date'', ''DATE''), (''timestamptz'', ''TIMESTAMP''),
      (''timestamp with time zone'', ''TIMESTAMP''),
      (''timestamp without time zone'', ''DATETIME''), (''timestamp'', ''TIMESTAMPTZ''),
      (''json'', ''JSON''), (''enum'', ''ENUM''), (''set'', ''SET''), (''char'', ''CHAR'')]"

text \<open>
  The length of a column is the string \<open>Length\<close> that the table parser stores: empty, a
  run of decimal digits, or a list of quoted values. \<open>length == 1\<close> and \<open>length > 0\<close>
  convert it to a number: the empty string is 0 and a run of digits its value; every other
  string is taken as \<open>NaN\<close> (\<open>None\<close>), the signed, fractional, exponent and radix literals
  that \<open>getLength\<close> cannot produce among them.
\<close>

definition length_ToNumber :: "string \<Rightarrow> int option" where
  "length_ToNumber s =
     (let t = trim s in
      if t = [] then Some 0 else if is_digits t then Some (decimal_value t) else None)"

definition length_eq_1 :: "string \<Rightarrow> bool" where
  "length_eq_1 s = (length_ToNumber s = Some 1)"

definition length_gt_0 :: "string \<Rightarrow> bool" where
  "length_gt_0 s = (case length_ToNumber s of None \<Rightarrow> False | Some n \<Rightarrow> 0 < n)"

definition isTinyInt1 :: "string \<Rightarrow> string \<Rightarrow> bool" where
  "isTinyInt1 type len =
     ((toUpperCase type = ''TINYINT'' \<and> length_eq_1 len) \<or> toUpperCase type = ''BIT''
      \<or> toUpperCase type = ''BOOLEAN'')"

definition isInteger :: "string \<Rightarrow> bool" where
  "isInteger type =
     (toUpperCase type = ''TINYINT'' \<or> toUpperCase type = ''SMALLINT''
      \<or> toUpperCase type = ''MEDIUMINT'' \<or> toUpperCase type = ''BIGINT''
      \<or> toUpperCase type = ''INTEGER'' \<or> toUpperCase type = ''INT'')"

text \<open>\<open>SQLConverter.isBoolean\<close>, the test that the rendering of default values uses.\<close>

definition isBoolean :: "string \<Rightarrow> bool" where
  "isBoolean columnType =
     (toUpperCase columnType = ''BOOLEAN'' \<or> toUpperCase columnType = ''BOOL''
      \<or> toUpperCase columnType = ''TINYINT(1)'')"

text \<open>
  The loop over a mapping object: the value of the first key that the type starts with,
  letter case apart, or the initial value \<open>TEXT\<close>.
\<close>

definition lookup_type :: "(string \<times> string) list \<Rightarrow> string \<Rightarrow> string" where
  "lookup_type table type =
     (case find (\<lambda>(key, v). startsWith (toLowerCase type) (toLowerCase key)) table of
        Some (key, v) \<Rightarrow> v
      | None \<Rightarrow> ''TEXT'')"

text \<open>\<open>replaceAll(str, search, replacement)\<close> for a search string of letters: every match of
  the search string, letter case apart, is replaced.\<close>

fun replaceAll :: "string \<Rightarrow> string \<Rightarrow> string \<Rightarrow> string" where
  "replaceAll [] search replacement = []"
| "replaceAll (c # cs) search replacement =
     (if search \<noteq> [] \<and> prefix (toUpperCase search) (toUpperCase (c # cs))
      then replacement @ replaceAll (drop (length search) (c # cs)) search replacement
      else c # replaceAll cs search replacement)"

text \<open>The decimal digits of a natural number, as \<open>'(' + (maxLength + 2) + ')'\<close> writes it.\<close>

fun string_of_nat :: "nat \<Rightarrow> string" where
  "string_of_nat n =
     (if n < 10 then [digit_chars ! n]
      else string_of_nat (n div 10) @ [digit_chars ! (n mod 10)])"

text \<open>
  \<open>parseEnumValue\<close>: the texts matched by \<open>/'([^']+)'/g\<close>, a quote, one or more characters
  other than the quote, and a quote; and the greatest of their lengths.
\<close>

function parseEnumValue_matches :: "string \<Rightarrow> string list" where
  "parseEnumValue_matches [] = []"
| "parseEnumValue_matches (c # cs) =
     (if c = SQ \<and> takeWhile (\<lambda>x. x \<noteq> SQ) cs \<noteq> [] \<and> dropWhile (\<lambda>x. x \<noteq> SQ) cs \<noteq> []
      then takeWhile (\<lambda>x. x \<noteq> SQ) cs
             # parseEnumValue_matches (tl (dropWhile (\<lambda>x. x \<noteq> SQ) cs))
      else parseEnumValue_matches cs)"
  by pat_completeness auto
termination
proof (relation "measure length", goal_cases)
  case 1
  then show ?case by simp
next
  case (2 c cs)
  have "length (tl (dropWhile (\<lambda>x. x \<noteq> SQ) cs)) \<le> length cs"
    using length_dropWhile_le [of "\<lambda>x. x \<noteq> SQ" cs] by simp
  then show ?case by simp
next
  case 3
  then show ?case by simp
qed

definition parseEnumValue_maxLength :: "string \<Rightarrow> nat" where
  "parseEnumValue_maxLength inputString =
     foldl (\<lambda>m current. if length current > m then length current else m) 0
       (parseEnumValue_matches inputString)"

text \<open>\<open>parseNumericType\<close>: the texts matched by \<open>/([A-Za-z0-9_]+)/g\<close>, the runs of word
  characters.\<close>

function parseNumericType_matches :: "string \<Rightarrow> string list" where
  "parseNumericType_matches [] = []"
| "parseNumericType_matches (c # cs) =
     (if is_word c
      then takeWhile is_word (c # cs) # parseNumericType_matches (dropWhile is_word cs)
      else parseNumericType_matches cs)"
  by pat_completeness auto
termination
proof (relation "measure length", goal_cases)
  case 1
  then show ?case by simp
next
  case (2 c cs)
  have "length (dropWhile is_word cs) \<le> length cs" by (rule length_dropWhile_le)
  then show ?case by simp
next
  case 3
  then show ?case by simp
qed

text \<open>\<open>array.join(sep)\<close>.\<close>

fun join :: "string \<Rightarrow> string list \<Rightarrow> string" where
  "join sep [] = []"
| "join sep [x] = x"
| "join sep (x # y # r) = x @ sep @ join sep (y # r)"

definition toSqliteType :: "string \<Rightarrow> string \<Rightarrow> string" where
  "toSqliteType type len =
     (if isTinyInt1 type len then ''BOOLEAN''
      else
        (let sqliteType = lookup_type dbToSqlite type in
         if str_includes (toUpperCase type) ''ENUM'' \<or> str_includes (toUpperCase type) ''SET''
         then ''NVARCHAR('' @ string_of_nat (parseEnumValue_maxLength len + 2) @ '')''
         else if (sqliteType = ''NVARCHAR'' \<or> sqliteType = ''INT'') \<and> length_gt_0 len
         then sqliteType @ ''('' @ len @ '')''
         else sqliteType))"

text \<open>
  \<open>toMySQLType\<close>. \<open>enumValues\<close> is \<open>null\<close> (\<open>None\<close>) or an array of strings, and
  \<open>enumValues.join\<close> on \<open>null\<close> throws.
\<close>

definition toMySQLType :: "string \<Rightarrow> string \<Rightarrow> string list option \<Rightarrow> js_error + string" where
  "toMySQLType type len enumValues =
     (if isTinyInt1 type len then Inr ''TINYINT(1)''
      else if isInteger type \<and> length_gt_0 len then Inr (type @ ''('' @ len @ '')'')
      else
        (let mysqlType = replaceAll (lookup_type dbToMySQL type) ''TIMESTAMPTZ'' ''TIMESTAMP'' in
         case (if str_includes (toUpperCase type) ''ENUM''
               then (case enumValues of
                       None \<Rightarrow> Inl TypeError
                     | Some vs \<Rightarrow>
                         Inr (''ENUM('' @ [SQ] @ join ([SQ] @ '','' @ [SQ]) vs @ [SQ] @ '')''))
               else if str_includes (toUpperCase type) ''SET''
               then (case enumValues of
                       None \<Rightarrow> Inl TypeError
                     | Some vs \<Rightarrow>
                         Inr (''SET('' @ [SQ] @ join ([SQ] @ '','' @ [SQ]) vs @ [SQ] @ '')''))
               else if str_includes (toUpperCase type) ''DECIMAL''
               then Inr (''DECIMAL('' @ join '','' (parseNumericType_matches len) @ '')'')
               else if str_includes (toUpperCase type) ''NUMERIC''
               then Inr (''NUMERIC('' @ join '','' (parseNumericType_matches len) @ '')'')
               else Inr mysqlType) of
           Inl e \<Rightarrow> Inl e
         | Inr mysqlType' \<Rightarrow>
             if (mysqlType' = ''VARCHAR'' \<or> mysqlType' = ''CHAR'') \<and> length_gt_0 len
             then Inr (mysqlType' @ ''('' @ len @ '')'')
             else Inr mysqlType'))"

section \<open>TableParser: the statement splitter\<close>

text \<open>\<open>s.split(sep)\<close> for a separator that is a non-empty string.\<close>

fun split_acc :: "string \<Rightarrow> string \<Rightarrow> string \<Rightarrow> string list" where
  "split_acc sep cur [] = [cur]"
| "split_acc sep cur (c # cs) =
     (if sep \<noteq> [] \<and> prefix sep (c # cs)
      then cur # split_acc sep [] (drop (length sep) (c # cs))
      else split_acc sep (cur @ [c]) cs)"

definition split :: "string \<Rightarrow> string \<Rightarrow> string list" where
  "split s sep = split_acc sep [] s"

text \<open>\<open>s.replace(/\s+/g, ' ')\<close>.\<close>

function collapse_spaces :: "string \<Rightarrow> string" where
  "collapse_spaces [] = []"
| "collapse_spaces (c # cs) =
     (if is_space c then CHR '' '' # collapse_spaces (dropWhile is_space cs)
      else c # collapse_spaces cs)"
  by pat_completeness auto
termination
proof (relation "measure length", goal_cases)
  case 1
  then show ?case by simp
next
  case (2 c cs)
  have "length (dropWhile is_space cs) \<le> length cs" by (rule length_dropWhile_le)
  then show ?case by simp
next
  case 3
  then show ?case by simp
qed

text \<open>
  The first pass of \<open>parseSQL\<close>: line ends are made \<open>\r\n\<close>, the text is split into lines,
  and the trimmed lines are kept unless they start with \<open>-- \<close>, are \<open>--\<close>, or are empty.
\<close>

definition normalize_newlines :: "string \<Rightarrow> string" where
  "normalize_newlines sql = replace_all [CR, CR, LF] [CR, LF] (replace_all [LF] [CR, LF] sql)"

definition kept_line :: "string \<Rightarrow> bool" where
  "kept_line val = (\<not> startsWith val ''-- '' \<and> val \<noteq> ''--'' \<and> val \<noteq> [])"

definition first_pass :: "string list \<Rightarrow> string list" where
  "first_pass arr = filter kept_line (map trim arr)"

text \<open>
  The state of the second pass: the variables \<open>append\<close>, \<open>skip\<close>, \<open>start\<close>, \<open>nquery\<close> and
  \<open>delimiter\<close>, and the arrays \<open>queryArray\<close> and \<open>delimiterArray\<close> as maps from indices. The
  delimiter is \<open>undefined\<close> (\<open>None\<close>) when a DELIMITER line has no second word, and reading
  the length of \<open>undefined\<close> throws. \<open>queryArray[nquery] += t\<close> on a missing element appends
  to the text \<open>undefined\<close>.
\<close>

record splitter =
  sp_append :: int
  sp_skip :: int
  sp_start :: int
  sp_nquery :: int
  sp_delimiter :: "string option"
  sp_queryArray :: "int \<rightharpoonup> string"
  sp_delimiterArray :: "int \<rightharpoonup> string option"

definition append_at :: "(int \<rightharpoonup> string) \<Rightarrow> int \<Rightarrow> string \<Rightarrow> (int \<rightharpoonup> string)" where
  "append_at q n t = q(n \<mapsto> (case q n of None \<Rightarrow> ''undefined'' | Some s \<Rightarrow> s) @ t)"

definition initial_splitter :: splitter where
  "initial_splitter =
     \<lparr>sp_append = 0, sp_skip = 0, sp_start = 1, sp_nquery = - 1, sp_delimiter = Some '';'',
      sp_queryArray = Map.empty, sp_delimiterArray = Map.empty\<rparr>"

definition blank_step :: "splitter \<Rightarrow> string \<Rightarrow> splitter" where
  "blank_step st text =
     (if text = [] \<and> sp_append st = 1
      then st\<lparr>sp_queryArray := append_at (sp_queryArray st) (sp_nquery st) [CR, LF]\<rparr>
      else st)"

definition comment_step :: "splitter \<Rightarrow> string \<Rightarrow> splitter" where
  "comment_step st text =
     (if sp_append st = 0
      then (if startsWith (trim text) ''--''
            then st\<lparr>sp_skip := 1, sp_nquery := sp_nquery st + 1, sp_start := 1, sp_append := 0\<rparr>
            else st\<lparr>sp_skip := 0\<rparr>)
      else st)"

definition open_step :: "splitter \<Rightarrow> splitter" where
  "open_step st =
     (if sp_start st = 1
      then st\<lparr>sp_nquery := sp_nquery st + 1,
              sp_queryArray := (sp_queryArray st)(sp_nquery st + 1 \<mapsto> []),
              sp_delimiterArray := (sp_delimiterArray st)(sp_nquery st + 1 \<mapsto> sp_delimiter st),
              sp_start := 0\<rparr>
      else st)"

definition text_step :: "splitter \<Rightarrow> string \<Rightarrow> splitter" where
  "text_step st text =
     st\<lparr>sp_queryArray := append_at (sp_queryArray st) (sp_nquery st) (text @ [CR, LF]),
        sp_delimiterArray := (sp_delimiterArray st)(sp_nquery st \<mapsto> sp_delimiter st)\<rparr>"

text \<open>\<open>text.substring(start)\<close>: a negative start counts as 0.\<close>

definition substring_from :: "string \<Rightarrow> int \<Rightarrow> string" where
  "substring_from text start = drop (nat start) text"

definition close_step :: "splitter \<Rightarrow> string \<Rightarrow> string \<Rightarrow> splitter" where
  "close_step st text d =
     (let start = int (length text) - int (length d) - 1;
          st' = (if str_includes (substring_from text start) d \<or> text = d
                 then st\<lparr>sp_nquery := sp_nquery st + 1, sp_start := 1, sp_append := 0\<rparr>
                 else st\<lparr>sp_start := 0, sp_append := 1\<rparr>)
      in st'\<lparr>sp_delimiterArray := (sp_delimiterArray st')(sp_nquery st' \<mapsto> sp_delimiter st')\<rparr>)"

definition delimiter_step :: "splitter \<Rightarrow> string \<Rightarrow> splitter" where
  "delimiter_step st text =
     (if startsWith (toLowerCase text) ''delimiter ''
      then (let arr2 = split (collapse_spaces (trim text)) '' '';
                d = (case arr2 of _ # w # _ \<Rightarrow> Some w | _ \<Rightarrow> None)
            in st\<lparr>sp_delimiter := d, sp_nquery := sp_nquery st + 1,
                  sp_delimiterArray := (sp_delimiterArray st)(sp_nquery st + 1 \<mapsto> d),
                  sp_start := 1, sp_append := 0\<rparr>)
      else st)"

definition splitter_step :: "splitter \<Rightarrow> string \<Rightarrow> js_error + splitter" where
  "splitter_step st0 text =
     (let st = comment_step (blank_step st0 text) text in
      if sp_skip st = 0
      then (let st' = text_step (open_step st) text in
            case sp_delimiter st' of
              None \<Rightarrow> Inl TypeError
            | Some d \<Rightarrow> Inr (delimiter_step (close_step st' (trim text) d) (trim text)))
      else Inr st)"

fun splitter_loop :: "splitter \<Rightarrow> string list \<Rightarrow> js_error + splitter" where
  "splitter_loop st [] = Inr st"
| "splitter_loop st (text # arr) =
     (case splitter_step st text of Inl e \<Rightarrow> Inl e | Inr st' \<Rightarrow> splitter_loop st' arr)"

text \<open>
  The last loop visits the elements of \<open>queryArray\<close> by ascending index; no index above the
  last value of \<open>nquery\<close> is ever assigned. A statement is a pair of its text and its
  delimiter.
\<close>

fun collect :: "splitter \<Rightarrow> int list \<Rightarrow> js_error + (string \<times> string) list" where
  "collect st [] = Inr []"
| "collect st (line # lines) =
     (case sp_queryArray st line of
        None \<Rightarrow> collect st lines
      | Some sql \<Rightarrow>
          if startsWith (toLowerCase sql) ''delimiter '' then collect st lines
          else (case sp_delimiterArray st line of
                  Some (Some d) \<Rightarrow>
                    (case collect st lines of
                       Inl e \<Rightarrow> Inl e
                     | Inr r \<Rightarrow>
                         Inr ((take (nat (int (length (trim sql)) - int (length d))) (trim sql), d) # r))
                | _ \<Rightarrow> Inl TypeError))"

definition second_pass :: "string list \<Rightarrow> js_error + (string \<times> string) list" where
  "second_pass arr =
     (case splitter_loop initial_splitter arr of
        Inl e \<Rightarrow> Inl e
      | Inr st \<Rightarrow> collect st (map int [0 ..< nat (sp_nquery st + 1)]))"

definition parseSQL :: "string \<Rightarrow> js_error + (string \<times> string) list" where
  "parseSQL sql = second_pass (first_pass (split (normalize_newlines sql) [CR, LF]))"

text \<open>A script as the lines of a text file: the lines hold no line ends and are joined by
  line feeds.\<close>

definition plain_line :: "string \<Rightarrow> bool" where
  "plain_line l = (CR \<notin> set l \<and> LF \<notin> set l)"

definition script :: "string list \<Rightarrow> string" where
  "script ls = join [LF] ls"

text \<open>In a text with \<open>\r\n\<close> line ends every carriage return is followed by a line feed.\<close>

fun cr_before_lf :: "string \<Rightarrow> bool" where
  "cr_before_lf [] = True"
| "cr_before_lf [c] = (c \<noteq> CR)"
| "cr_before_lf (c # d # cs) = ((c = CR \<longrightarrow> d = LF) \<and> cr_before_lf (d # cs))"

definition dropped_line :: "string \<Rightarrow> bool" where
  "dropped_line l = (startsWith (trim l) ''-- '' \<or> trim l = ''--'' \<or> trim l = [])"

section \<open>TableParser: CREATE TABLE statements\<close>

subsection \<open>The regular expressions of parseTable\<close>

text \<open>
  Each regular expression of \<open>parseTable\<close> is written as a function from the text at a
  position to the text left after the match there, if there is one. All of them are
  deterministic: a greedy \<open>\w+\<close>, \<open>\s+\<close>, \<open>[^)]+\<close> or \<open>.*\<close> takes the longest run, and no
  shorter run lets the rest of the expression match, since what follows the run begins
  with a character outside the class. \<open>search\<close> is the search for the leftmost match; the
  text matched is what stands before the text left. Letter case is ignored in the words
  (flag \<open>i\<close>), and \<open>.\<close> stops at a line end.
\<close>

definition is_line_end :: "char \<Rightarrow> bool" where
  "is_line_end c = (c = LF \<or> c = CR)"

fun match_ci :: "string \<Rightarrow> string \<Rightarrow> string option" where
  "match_ci [] s = Some s"
| "match_ci (l # lit) [] = None"
| "match_ci (l # lit) (c # cs) =
     (if toUpperCase_char l = toUpperCase_char c then match_ci lit cs else None)"

definition spaces0 :: "string \<Rightarrow> string" where
  "spaces0 s = dropWhile is_space s"

definition spaces1 :: "string \<Rightarrow> string option" where
  "spaces1 s = (case s of [] \<Rightarrow> None | c # cs \<Rightarrow> if is_space c then Some (dropWhile is_space cs) else None)"

definition word1 :: "string \<Rightarrow> (string \<times> string) option" where
  "word1 s = (if takeWhile is_word s = [] then None
              else Some (takeWhile is_word s, dropWhile is_word s))"

definition to_line_end :: "string \<Rightarrow> string" where
  "to_line_end s = dropWhile (\<lambda>c. \<not> is_line_end c) s"

text \<open>\<open>\(([^)]+)\)\<close>: the text in the parentheses and the text left.\<close>

definition paren_group :: "string \<Rightarrow> (string \<times> string) option" where
  "paren_group s =
     (case s of
        [] \<Rightarrow> None
      | c # r \<Rightarrow>
          if c = CHR ''('' \<and> takeWhile (\<lambda>x. x \<noteq> CHR '')'') r \<noteq> []
             \<and> dropWhile (\<lambda>x. x \<noteq> CHR '')'') r \<noteq> []
          then Some (takeWhile (\<lambda>x. x \<noteq> CHR '')'') r, tl (dropWhile (\<lambda>x. x \<noteq> CHR '')'') r))
          else None)"

fun search :: "(string \<Rightarrow> 'a option) \<Rightarrow> string \<Rightarrow> (string \<times> 'a) option" where
  "search m [] = map_option (Pair []) (m [])"
| "search m (c # cs) = (case m (c # cs) of Some r \<Rightarrow> Some (c # cs, r) | None \<Rightarrow> search m cs)"

text \<open>\<open>primary\s+key\<close> (\<open>rg_pk\<close>) and \<open>not\s+null\<close> (\<open>rg_not_null\<close>).\<close>

definition rg_pk :: "string \<Rightarrow> string option" where
  "rg_pk s = Option.bind (Option.bind (match_ci ''primary'' s) spaces1) (match_ci ''key'')"

definition rg_not_null :: "string \<Rightarrow> string option" where
  "rg_not_null s = Option.bind (Option.bind (match_ci ''not'' s) spaces1) (match_ci ''null'')"

text \<open>\<open>primary\s+key\s*\(([^)]+)\)\<close> (\<open>rg_pk_composite\<close>, and the first alternative of
  \<open>rg_fld\<close>): the text in the parentheses and the text left.\<close>

definition rg_pk_composite :: "string \<Rightarrow> (string \<times> string) option" where
  "rg_pk_composite s = Option.bind (rg_pk s) (\<lambda>r. paren_group (spaces0 r))"

text \<open>
  The alternatives of \<open>rg_fld\<close> after the first one all begin with \<open>\w+\s+\<close> and a type
  word; then comes the rest of the line (\<open>.*\<close>), nothing, or a group in parentheses. They
  are listed in the order of the source.
\<close>

datatype fld_alt = ToEol string | Lit string | Paren string

definition fld_alts :: "fld_alt list" where
  "fld_alts =
     [ToEol ''key'', Lit ''bigserial'', Lit ''serial4'', Lit ''serial8'', ToEol ''tinyint'',
      ToEol ''bigint'', ToEol ''longtext'', ToEol ''mediumtext'', ToEol ''text'',
      ToEol ''nvarchar'', ToEol ''varchar'', ToEol ''char'', ToEol ''real'', ToEol ''float'',
      ToEol ''integer'', ToEol ''int'', ToEol ''datetime2'', ToEol ''datetime'', ToEol ''date'',
      ToEol ''double'', ToEol ''timestamp'', ToEol ''timestamptz'', ToEol ''boolean'',
      ToEol ''bool'', Paren ''enum'', Paren ''set'', Paren ''numeric'', Paren ''decimal'',
      Paren ''float'', ToEol ''int2'', ToEol ''int4'', ToEol ''int8'', ToEol ''time'',
      ToEol ''uuid'', ToEol ''money'', ToEol ''blob'', ToEol ''bit'', ToEol ''json'']"

fun alt_rest :: "fld_alt \<Rightarrow> string \<Rightarrow> string option" where
  "alt_rest (ToEol kw) s = map_option to_line_end (match_ci kw s)"
| "alt_rest (Lit kw) s = match_ci kw s"
| "alt_rest (Paren kw) s =
     Option.bind (match_ci kw s) (\<lambda>r. map_option snd (paren_group (spaces0 r)))"

fun first_alt :: "fld_alt list \<Rightarrow> string \<Rightarrow> string option" where
  "first_alt [] s = None"
| "first_alt (a # as) s = (case alt_rest a s of Some r \<Rightarrow> Some r | None \<Rightarrow> first_alt as s)"

definition rg_fld_at :: "string \<Rightarrow> string option" where
  "rg_fld_at s =
     (case rg_pk_composite s of
        Some (body, r) \<Rightarrow> Some r
      | None \<Rightarrow>
          Option.bind (word1 s) (\<lambda>(w, r1). Option.bind (spaces1 r1) (first_alt fld_alts)))"

definition matched_text :: "string \<Rightarrow> string \<Rightarrow> string" where
  "matched_text s rest = take (length s - length rest) s"

text \<open>
  The successive results of \<open>rg_fld.exec(sql)\<close>. A match is searched from the end of the
  one before: the first argument counts the characters of the last match still to be
  passed. (No match of \<open>rg_fld\<close> is empty.)
\<close>

fun rg_fld_matches :: "nat \<Rightarrow> string \<Rightarrow> string list" where
  "rg_fld_matches k [] = []"
| "rg_fld_matches (Suc k) (c # cs) = rg_fld_matches k cs"
| "rg_fld_matches 0 (c # cs) =
     (case rg_fld_at (c # cs) of
        Some r \<Rightarrow> matched_text (c # cs) r # rg_fld_matches (length (matched_text (c # cs) r) - 1) cs
      | None \<Rightarrow> rg_fld_matches 0 cs)"

text \<open>\<open>rg_fld2\<close>, \<open>(\w+)\s+(\w+)(.*)\<close>: the groups \<open>fname\<close>, \<open>ftype\<close> and \<open>fattr\<close>.\<close>

definition rg_fld2_at :: "string \<Rightarrow> (string \<times> string \<times> string) option" where
  "rg_fld2_at s =
     Option.bind (word1 s) (\<lambda>(fname, r1).
       Option.bind (spaces1 r1) (\<lambda>r2.
         Option.bind (word1 r2) (\<lambda>(ftype, r3).
           Some (fname, ftype, takeWhile (\<lambda>c. \<not> is_line_end c) r3))))"

text \<open>
  \<open>rg_pk2\<close>, \<open>(PRIMARY|UNIQUE) KEY[a-zA-Z_0-9\s]+\(([a-zA-Z_0-9,\s]+)\)\<close>. The expression has
  the flag \<open>g\<close> and is used with \<open>test\<close>, which starts the search at \<open>lastIndex\<close> and leaves
  there the end of the match, or 0 without a match: \<open>lastIndex\<close> is part of the state of
  the loop.
\<close>

definition rg_pk2_at :: "string \<Rightarrow> string option" where
  "rg_pk2_at s =
     (case (case match_ci ''PRIMARY'' s of Some r \<Rightarrow> Some r | None \<Rightarrow> match_ci ''UNIQUE'' s) of
        None \<Rightarrow> None
      | Some r \<Rightarrow>
          (case match_ci '' KEY'' r of
             None \<Rightarrow> None
           | Some r1 \<Rightarrow>
               (let name = takeWhile (\<lambda>c. is_word c \<or> is_space c) r1;
                    r2 = dropWhile (\<lambda>c. is_word c \<or> is_space c) r1 in
                case r2 of
                  [] \<Rightarrow> None
                | p # r3 \<Rightarrow>
                    (let cols = takeWhile (\<lambda>c. is_word c \<or> c = CHR '','' \<or> is_space c) r3;
                         r4 = dropWhile (\<lambda>c. is_word c \<or> c = CHR '','' \<or> is_space c) r3 in
                     if name \<noteq> [] \<and> p = CHR ''('' \<and> cols \<noteq> [] \<and> r4 \<noteq> [] \<and> hd r4 = CHR '')''
                     then Some (tl r4) else None))))"

definition rg_pk2_test :: "nat \<Rightarrow> string \<Rightarrow> bool \<times> nat" where
  "rg_pk2_test lastIndex f =
     (if lastIndex > length f then (False, 0)
      else case search rg_pk2_at (drop lastIndex f) of
             None \<Rightarrow> (False, 0)
           | Some (at, rest) \<Rightarrow> (True, length f - length rest))"

text \<open>\<open>text.match(/\((.*)\)/)\<close>: group 1 of the leftmost match, from an opening parenthesis
  to the last closing one of the same line.\<close>

definition paren_to_last :: "string \<Rightarrow> string option" where
  "paren_to_last s =
     (case s of
        [] \<Rightarrow> None
      | c # r \<Rightarrow>
          (let l = takeWhile (\<lambda>x. \<not> is_line_end x) r in
           if c = CHR ''('' \<and> CHR '')'' \<in> set l
           then Some (rev (tl (dropWhile (\<lambda>x. x \<noteq> CHR '')'') (rev l))))
           else None))"

text \<open>\<open>s.replace(x, '')\<close> for a string \<open>x\<close>: the first occurrence of \<open>x\<close> is removed.\<close>

fun remove_first :: "string \<Rightarrow> string \<Rightarrow> string" where
  "remove_first x [] = []"
| "remove_first x (c # cs) =
     (if prefix x (c # cs) then drop (length x) (c # cs) else c # remove_first x cs)"

text \<open>\<open>s.replace(re, '')\<close> for one of the expressions above: the leftmost match is removed.\<close>

definition remove_match :: "(string \<Rightarrow> string option) \<Rightarrow> string \<Rightarrow> string" where
  "remove_match m s =
     (case search m s of
        None \<Rightarrow> s
      | Some (at, rest) \<Rightarrow> take (length s - length at) s @ rest)"

text \<open>\<open>line.replace(/[\r\n]+/g, ' ')\<close>.\<close>

function line_ends_to_space :: "string \<Rightarrow> string" where
  "line_ends_to_space [] = []"
| "line_ends_to_space (c # cs) =
     (if is_line_end c then CHR '' '' # line_ends_to_space (dropWhile is_line_end cs)
      else c # line_ends_to_space cs)"
  by pat_completeness auto
termination
proof (relation "measure length", goal_cases)
  case 1
  then show ?case by simp
next
  case (2 c cs)
  have "length (dropWhile is_line_end cs) \<le> length cs" by (rule length_dropWhile_le)
  then show ?case by simp
next
  case 3
  then show ?case by simp
qed

subsection \<open>parseTable\<close>

definition typeList :: "string list" where
  "typeList =
     [''TIMESTAMPTZ'', ''TIMESTAMP'', ''SERIAL4'', ''BIGSERIAL'', ''INT2'', ''INT4'', ''INT8'',
      ''TINYINT'', ''BIGINT'', ''LONGTEXT'', ''MEDIUMTEXT'', ''TEXT'', ''NVARCHAR'', ''VARCHAR'',
      ''ENUM'', ''SET'', ''NUMERIC'', ''DECIMAL'', ''CHAR'', ''REAL'', ''FLOAT'', ''INTEGER'',
      ''INT'', ''DATETIME2'', ''DATETIME'', ''DATE'', ''DOUBLE'', ''BOOLEAN'', ''BOOL'', ''TIME'',
      ''UUID'', ''MONEY'', ''BLOB'', ''BIT'', ''JSON'']"

definition isValidType :: "string \<Rightarrow> bool" where
  "isValidType dataType = List.member typeList (toUpperCase dataType)"

definition isPrimaryKey :: "string \<Rightarrow> bool" where
  "isPrimaryKey field = str_includes (trim (collapse_spaces (toUpperCase field))) ''PRIMARY KEY''"

definition isAutoIncrement :: "string \<Rightarrow> bool" where
  "isAutoIncrement line =
     (let f = trim (collapse_spaces (toUpperCase line)) in
      if str_includes f ''AUTO_INCREMENT'' \<or> str_includes f ''AUTOINCREMENT'' then True
      else str_includes f ''SERIAL'' \<or> str_includes f ''BIGSERIAL'' \<or> str_includes f ''NEXTVAL'')"

text \<open>
  A column of the result. Of the properties of the source object the model keeps \<open>Field\<close>,
  \<open>Type\<close>, \<open>Key\<close>, \<open>Nullable\<close> and \<open>AutoIncrement\<close>; \<open>Length\<close>, \<open>Default\<close>, \<open>EnumValues\<close> and
  \<open>Comment\<close> are computed from the line by code that neither throws nor touches the other
  properties, and are left out.
\<close>

record column_info =
  Field :: string
  Type :: string
  Key :: bool
  Nullable :: bool
  AutoIncrement :: bool

text \<open>The variables of the loop over the matches of \<open>rg_fld\<close>.\<close>

record table_state =
  fieldList :: "column_info list"
  primaryKey :: "string option"
  columnList :: "string list"
  primaryKeyList :: "string list"
  rg_pk2_lastIndex :: nat

definition set_keys :: "(string \<Rightarrow> bool) \<Rightarrow> column_info list \<Rightarrow> column_info list" where
  "set_keys is_key fl = map (\<lambda>c. if is_key (Field c) then c\<lparr>Key := True\<rparr> else c) fl"

text \<open>The branch of a line with a valid type, and the branch \<open>else if (isPrimaryKey(line))\<close>.\<close>

definition column_step :: "table_state \<Rightarrow> string \<Rightarrow> string \<Rightarrow> string \<Rightarrow> string \<Rightarrow> table_state" where
  "column_step st line columnName dataType fattr =
     (let attr = trim (remove_first '','' fattr);
          nullable = (search rg_not_null attr = None);
          attr2 = remove_match rg_not_null attr;
          isPk = (search rg_pk attr2 \<noteq> None \<or> isPrimaryKey line);
          isAi = isAutoIncrement line;
          st1 = (if isPk then st\<lparr>primaryKeyList := primaryKeyList st @ [columnName]\<rparr> else st)
      in if \<not> List.member (columnList st1) columnName
         then st1\<lparr>fieldList := fieldList st1 @
                     [\<lparr>Field = columnName, Type = trim dataType, Key = isPk,
                       Nullable = (if isPk then False else nullable), AutoIncrement = isAi\<rparr>],
                   columnList := columnList st1 @ [columnName]\<rparr>
         else st1)"

definition constraint_step :: "table_state \<Rightarrow> string \<Rightarrow> table_state" where
  "constraint_step st f =
     (if primaryKey st = None
      then st\<lparr>primaryKey := map_option snd (search paren_to_last f)\<rparr>
      else st)"

text \<open>The three passes that follow, for every match: the key named by \<open>primaryKey\<close>, the
  keys of a line matched by \<open>rg_pk2\<close> and \<open>rg_pk\<close>, and the keys of a line matched by
  \<open>rg_pk_composite\<close>.\<close>

definition primaryKey_pass :: "table_state \<Rightarrow> table_state" where
  "primaryKey_pass st =
     (case primaryKey st of
        None \<Rightarrow> st
      | Some pk \<Rightarrow>
          (let pk' = filter (\<lambda>c. c \<noteq> CHR ''('' \<and> c \<noteq> CHR '')'') pk
           in st\<lparr>primaryKey := Some pk', fieldList := set_keys (\<lambda>n. n = pk') (fieldList st)\<rparr>))"

definition rg_pk2_pass :: "table_state \<Rightarrow> string \<Rightarrow> table_state" where
  "rg_pk2_pass st f =
     (case rg_pk2_test (rg_pk2_lastIndex st) f of
        (found, lastIndex) \<Rightarrow>
          if found \<and> search rg_pk f \<noteq> None
          then (let x = remove_first '')'' (remove_first ''('' (remove_match rg_pk f));
                    pkeys = map trim (split x '','')
                in st\<lparr>rg_pk2_lastIndex := lastIndex,
                      fieldList := set_keys (List.member pkeys) (fieldList st)\<rparr>)
          else st\<lparr>rg_pk2_lastIndex := lastIndex\<rparr>)"

definition composite_pass :: "table_state \<Rightarrow> string \<Rightarrow> table_state" where
  "composite_pass st line =
     (case search rg_pk_composite line of
        None \<Rightarrow> st
      | Some (at, body, rest) \<Rightarrow>
          (let pkeys = map trim (split body '','')
           in st\<lparr>primaryKeyList := primaryKeyList st @ pkeys,
                 fieldList := set_keys (List.member pkeys) (fieldList st)\<rparr>))"

text \<open>The body of the loop for the match \<open>f\<close>. \<open>rg_fld2.exec(f)\<close> without a match is \<open>null\<close>,
  and reading its element throws.\<close>

definition field_step :: "table_state \<Rightarrow> string \<Rightarrow> js_error + table_state" where
  "field_step st f =
     (let line = line_ends_to_space f in
      case search rg_fld2_at f of
        None \<Rightarrow> Inl TypeError
      | Some (at, fname, ftype, fattr) \<Rightarrow>
          (let st1 = (if isValidType ftype then column_step st line (trim fname) ftype fattr
                      else if isPrimaryKey line then constraint_step st f
                      else st)
           in Inr (composite_pass (rg_pk2_pass (primaryKey_pass st1) f) line)))"

fun field_loop :: "table_state \<Rightarrow> string list \<Rightarrow> js_error + table_state" where
  "field_loop st [] = Inr st"
| "field_loop st (f # fs) =
     (case field_step st f of Inl e \<Rightarrow> Inl e | Inr st' \<Rightarrow> field_loop st' fs)"

text \<open>
  \<open>rg_tb\<close>, \<open>(create\s+table\s+if\s+not\s+exists|create\s+table)\s(.*)\s\(\<close>: the table name
  is the longest text of one line that a white-space character and an opening parenthesis
  follow.
\<close>

definition words_ci :: "string list \<Rightarrow> string \<Rightarrow> string option" where
  "words_ci ws s =
     foldl (\<lambda>r w. Option.bind r (\<lambda>t. if w = [] then spaces1 t else match_ci w t)) (Some s) ws"

fun longest_name :: "nat \<Rightarrow> string \<Rightarrow> string option" where
  "longest_name n s =
     (if n < length s \<and> is_space (s ! n) \<and> Suc n < length s \<and> s ! Suc n = CHR ''(''
      then Some (take n s)
      else case n of 0 \<Rightarrow> None | Suc m \<Rightarrow> longest_name m s)"

definition rg_tb_tail :: "string \<Rightarrow> string option" where
  "rg_tb_tail s =
     (case s of
        [] \<Rightarrow> None
      | c # r \<Rightarrow>
          if is_space c then longest_name (length (takeWhile (\<lambda>x. \<not> is_line_end x) r)) r
          else None)"

definition rg_tb_at :: "string \<Rightarrow> string option" where
  "rg_tb_at s =
     (case Option.bind
             (words_ci [''create'', [], ''table'', [], ''if'', [], ''not'', [], ''exists''] s)
             rg_tb_tail of
        Some tb \<Rightarrow> Some tb
      | None \<Rightarrow> Option.bind (words_ci [''create'', [], ''table''] s) rg_tb_tail)"

text \<open>
  The two replacements at the start, \<open>\bnvarchar\s*\(\s*max\s*\)\<close> and
  \<open>\bvarchar\s*\(\s*max\s*\)\<close> by \<open>TEXT\<close>. The second argument of \<open>replace_max\<close> tells
  whether the character before the position is a word character (\<open>\b\<close>).
\<close>

definition max_at :: "string \<Rightarrow> string \<Rightarrow> string option" where
  "max_at kw s =
     Option.bind (match_ci kw s) (\<lambda>r.
       Option.bind (match_ci ''('' (spaces0 r)) (\<lambda>r1.
         Option.bind (match_ci ''max'' (spaces0 r1)) (\<lambda>r2. match_ci '')'' (spaces0 r2))))"

fun replace_max :: "string \<Rightarrow> nat \<Rightarrow> bool \<Rightarrow> string \<Rightarrow> string" where
  "replace_max kw k after_word [] = []"
| "replace_max kw (Suc k) after_word (c # cs) = replace_max kw k (is_word c) cs"
| "replace_max kw 0 after_word (c # cs) =
     (case (if after_word then None else max_at kw (c # cs)) of
        Some r \<Rightarrow> ''TEXT'' @ replace_max kw (length (matched_text (c # cs) r) - 1) (is_word c) cs
      | None \<Rightarrow> c # replace_max kw 0 (is_word c) cs)"

record table_info =
  tableName :: string
  columns :: "column_info list"
  tablePrimaryKey :: "string option"

definition updatePrimaryKey :: "column_info list \<Rightarrow> string \<Rightarrow> column_info list" where
  "updatePrimaryKey fl pk = set_keys (\<lambda>n. trim pk = trim n) fl"

definition initial_table_state :: table_state where
  "initial_table_state =
     \<lparr>fieldList = [], primaryKey = None, columnList = [], primaryKeyList = [],
      rg_pk2_lastIndex = 0\<rparr>"

definition parseTable :: "string \<Rightarrow> js_error + table_info" where
  "parseTable sql0 =
     (let sql = replace_max ''varchar'' 0 False (replace_max ''nvarchar'' 0 False sql0) in
      case search rg_tb_at sql of
        None \<Rightarrow> Inl TypeError
      | Some (at, tb) \<Rightarrow>
          (case field_loop initial_table_state (rg_fld_matches 0 sql) of
             Inl e \<Rightarrow> Inl e
           | Inr st \<Rightarrow>
               (let pk = (if primaryKey st = None \<and> primaryKeyList st \<noteq> []
                          then Some (hd (primaryKeyList st)) else primaryKey st)
                in Inr \<lparr>tableName = tb,
                        columns = (case pk of None \<Rightarrow> fieldList st
                                   | Some k \<Rightarrow> updatePrimaryKey (fieldList st) k),
                        tablePrimaryKey = pk\<rparr>)))"

text \<open>The text of a statement after the two replacements.\<close>

definition replaced_max :: "string \<Rightarrow> string" where
  "replaced_max sql0 = replace_max ''varchar'' 0 False (replace_max ''nvarchar'' 0 False sql0)"

text \<open>
  The columns that the loop makes of the matches of \<open>rg_fld\<close>, as pairs of the name and
  the auto-increment flag: a match whose second word is a valid type gives a column,
  unless a column of its name exists already, and the flag is what \<open>isAutoIncrement\<close> finds
  in the text of the match. The first argument is the list of the names of the columns
  made so far.
\<close>

fun fragment_flags :: "string list \<Rightarrow> string list \<Rightarrow> (string \<times> bool) list" where
  "fragment_flags cols [] = []"
| "fragment_flags cols (f # fs) =
     (case search rg_fld2_at f of
        None \<Rightarrow> fragment_flags cols fs
      | Some (at, fname, ftype, fattr) \<Rightarrow>
          if isValidType ftype \<and> \<not> List.member cols (trim fname)
          then (trim fname, isAutoIncrement (line_ends_to_space f))
                 # fragment_flags (cols @ [trim fname]) fs
          else fragment_flags cols fs)"

definition name_flag :: "column_info \<Rightarrow> string \<times> bool" where
  "name_flag c = (Field c, AutoIncrement c)"

text \<open>A table whose two columns both carry a primary-key marker, the first one with
  \<open>AUTOINCREMENT\<close>; a table with a primary key declared at table level; and a table whose
  two columns both carry \<open>AUTO_INCREMENT\<close>, the first one after the type \<open>NUMERIC(10)\<close>.\<close>

definition two_key_table :: string where
  "two_key_table =
     [LF] @ ''CREATE TABLE t ('' @ [LF, TAB] @ ''id INTEGER PRIMARY KEY AUTOINCREMENT,''
       @ [LF, TAB] @ ''code INTEGER PRIMARY KEY)''"

definition table_level_key :: string where
  "table_level_key =
     [LF] @ ''CREATE TABLE t ('' @ [LF, TAB] @ ''id INT,'' @ [LF, TAB] @ ''name TEXT,''
       @ [LF, TAB] @ ''PRIMARY KEY (id))''"

definition numeric_table :: string where
  "numeric_table =
     [LF] @ ''CREATE TABLE t ('' @ [LF, TAB] @ ''id NUMERIC(10) AUTO_INCREMENT,''
       @ [LF, TAB] @ ''code INTEGER AUTO_INCREMENT)''"

definition two_key_result :: table_info where
  "two_key_result =
     \<lparr>tableName = ''t'',
      columns = [\<lparr>Field = ''id'', Type = ''INTEGER'', Key = True, Nullable = False,
                  AutoIncrement = True\<rparr>,
                 \<lparr>Field = ''code'', Type = ''INTEGER'', Key = True, Nullable = False,
                  AutoIncrement = False\<rparr>],
      tablePrimaryKey = Some ''id''\<rparr>"

definition numeric_result :: table_info where
  "numeric_result =
     \<lparr>tableName = ''t'',
      columns = [\<lparr>Field = ''id'', Type = ''NUMERIC'', Key = False, Nullable = True,
                  AutoIncrement = False\<rparr>,
                 \<lparr>Field = ''code'', Type = ''INTEGER'', Key = False, Nullable = True,
                  AutoIncrement = True\<rparr>],
      tablePrimaryKey = None\<rparr>"

subsection \<open>formatSQL and parseAll\<close>

text \<open>
  \<open>s.replace(re, rep)\<close> for an expression without the flag \<open>g\<close> and a replacement text
  without \<open>$\<close>: the leftmost match is replaced. \<open>search_word\<close> is the search for an
  expression that begins with \<open>\b\<close> and a letter; its second argument tells whether the
  character before the position is a word character.
\<close>

definition replace_match :: "(string \<Rightarrow> string option) \<Rightarrow> string \<Rightarrow> string \<Rightarrow> string" where
  "replace_match m rep s =
     (case search m s of
        None \<Rightarrow> s
      | Some (at, rest) \<Rightarrow> take (length s - length at) s @ rep @ rest)"

fun search_word :: "(string \<Rightarrow> 'a option) \<Rightarrow> bool \<Rightarrow> string \<Rightarrow> (string \<times> 'a) option" where
  "search_word m after_word [] = None"
| "search_word m after_word (c # cs) =
     (case (if after_word then None else m (c # cs)) of
        Some r \<Rightarrow> Some (c # cs, r)
      | None \<Rightarrow> search_word m (is_word c) cs)"

definition replace_word :: "(string \<Rightarrow> string option) \<Rightarrow> string \<Rightarrow> string \<Rightarrow> string" where
  "replace_word m rep s =
     (case search_word m False s of
        None \<Rightarrow> s
      | Some (at, rest) \<Rightarrow> take (length s - length at) s @ rep @ rest)"

text \<open>\<open>s.replace(x, rep)\<close> for a string \<open>x\<close>: the first occurrence is replaced.\<close>

fun replace_first :: "string \<Rightarrow> string \<Rightarrow> string \<Rightarrow> string" where
  "replace_first x rep [] = []"
| "replace_first x rep (c # cs) =
     (if prefix x (c # cs) then rep @ drop (length x) (c # cs)
      else c # replace_first x rep cs)"

text \<open>\<open>s.replace(/,\s*/g, ",\n\t")\<close>.\<close>

function break_after_commas :: "string \<Rightarrow> string" where
  "break_after_commas [] = []"
| "break_after_commas (c # cs) =
     (if c = CHR '','' then [CHR '','', LF, TAB] @ break_after_commas (dropWhile is_space cs)
      else c # break_after_commas cs)"
  by pat_completeness auto
termination
proof (relation "measure length", goal_cases)
  case 1
  then show ?case by simp
next
  case (2 c cs)
  have "length (dropWhile is_space cs) \<le> length cs" by (rule length_dropWhile_le)
  then show ?case by simp
next
  case 3
  then show ?case by simp
qed

text \<open>
  The expressions of \<open>formatSQL\<close>: \<open>\bCREATE\s+TABLE\s+\<close> and \<open>\bIF\s+NOT\s+EXISTS\s+\<close>
  (flag \<open>i\<close>), \<open>\s*\(\<close>, \<open>\s*\)\s*;\<close> and \<open>\(\s*\<close>.
\<close>

definition rg_create_table :: "string \<Rightarrow> string option" where
  "rg_create_table s = words_ci [''CREATE'', [], ''TABLE'', []] s"

definition rg_if_not_exists :: "string \<Rightarrow> string option" where
  "rg_if_not_exists s = words_ci [''IF'', [], ''NOT'', [], ''EXISTS'', []] s"

definition rg_open :: "string \<Rightarrow> string option" where
  "rg_open s = match_ci ''('' (spaces0 s)"

definition rg_close :: "string \<Rightarrow> string option" where
  "rg_close s = Option.bind (match_ci '')'' (spaces0 s)) (\<lambda>r. match_ci '';'' (spaces0 r))"

definition rg_open_spaces :: "string \<Rightarrow> string option" where
  "rg_open_spaces s = map_option spaces0 (match_ci ''('' s)"

definition formatSQL :: "string \<Rightarrow> string" where
  "formatSQL sql0 =
     (let sql1 = collapse_spaces sql0;
          sql2 = replace_word rg_create_table ''CREATE TABLE '' sql1;
          sql3 = replace_word rg_if_not_exists ''IF NOT EXISTS '' sql2;
          sql4 = replace_match rg_open '' ('' sql3;
          sql5 = replace_match rg_close ([CR, LF] @ '');'') sql4;
          sql6 = replace_match rg_open_spaces (''('' @ [LF, TAB]) sql5;
          sql7 = break_after_commas sql6
      in replace_first ''CREATE TABLE'' (LF # ''CREATE TABLE'') sql7)"

text \<open>
  \<open>parseAll\<close>, which the constructor calls on its argument: every statement of the script
  is formatted and parsed as a table, and a statement on which \<open>parseTable\<close> throws is
  skipped (\<open>catch\<close>). The result is the value of \<open>tableInfo\<close>.
\<close>

definition parseAll :: "string \<Rightarrow> js_error + table_info list" where
  "parseAll sql =
     (case parseSQL sql of
        Inl e \<Rightarrow> Inl e
      | Inr parsedResult \<Rightarrow>
          Inr (List.map_filter
                 (\<lambda>(query, delimiter).
                    case parseTable (formatSQL query) of Inl e \<Rightarrow> None | Inr info \<Rightarrow> Some info)
                 parsedResult))"

section \<open>TableParser: INSERT statements\<close>

text \<open>
  \<open>insertRegex\<close>,
  \<open>INSERT INTO\s+(`[^`]+`|\[[^\]]+\]|"[^"]+"|[\w.]+)\s*(?:\(([^)]*?)\))?\s*VALUES\s*(.*)\<close> with
  the flags \<open>i\<close> and \<open>s\<close>. After the table name come the optional list in parentheses, which
  ends at the first closing parenthesis, the word \<open>VALUES\<close>, and the rest of the text. A
  quoted table name ends at its closing quote; an unquoted name is the longest run of word
  characters and dots after which the rest matches, so that shorter runs are tried in turn.
\<close>

definition quoted_name :: "char \<Rightarrow> char \<Rightarrow> string \<Rightarrow> (string \<times> string) option" where
  "quoted_name op cl s =
     (case s of
        [] \<Rightarrow> None
      | c # r \<Rightarrow>
          if c = op \<and> takeWhile (\<lambda>x. x \<noteq> cl) r \<noteq> [] \<and> dropWhile (\<lambda>x. x \<noteq> cl) r \<noteq> []
          then Some (c # takeWhile (\<lambda>x. x \<noteq> cl) r @ [cl], tl (dropWhile (\<lambda>x. x \<noteq> cl) r))
          else None)"

text \<open>What follows the table name: groups 2 and 3 of the match.\<close>

definition insert_tail :: "string \<Rightarrow> (string option \<times> string) option" where
  "insert_tail s =
     (let s1 = spaces0 s in
      case (case s1 of
              [] \<Rightarrow> Some (None, s1)
            | c # r \<Rightarrow>
                if c = CHR ''(''
                then (if dropWhile (\<lambda>x. x \<noteq> CHR '')'') r = [] then Some (None, s1)
                      else Some (Some (takeWhile (\<lambda>x. x \<noteq> CHR '')'') r),
                                 tl (dropWhile (\<lambda>x. x \<noteq> CHR '')'') r)))
                else Some (None, s1)) of
        None \<Rightarrow> None
      | Some (cols, s2) \<Rightarrow>
          map_option (\<lambda>r. (cols, spaces0 r)) (match_ci ''VALUES'' (spaces0 s2)))"

fun unquoted_name :: "nat \<Rightarrow> string \<Rightarrow> (string \<times> string option \<times> string) option" where
  "unquoted_name 0 s = None"
| "unquoted_name (Suc n) s =
     (case insert_tail (drop (Suc n) s) of
        Some (cols, vals) \<Rightarrow> Some (take (Suc n) s, cols, vals)
      | None \<Rightarrow> unquoted_name n s)"

definition insert_name :: "string \<Rightarrow> (string \<times> string option \<times> string) option" where
  "insert_name s =
     (case (case quoted_name (CHR 0x60) (CHR 0x60) s of
              Some q \<Rightarrow> Some q
            | None \<Rightarrow>
                (case quoted_name (CHR ''['') (CHR '']'') s of
                   Some q \<Rightarrow> Some q
                 | None \<Rightarrow> quoted_name DQ DQ s)) of
        Some (name, r) \<Rightarrow> map_option (\<lambda>(cols, vals). (name, cols, vals)) (insert_tail r)
      | None \<Rightarrow>
          unquoted_name (length (takeWhile (\<lambda>c. is_word c \<or> c = CHR ''.'') s)) s)"

definition insertRegex_at :: "string \<Rightarrow> (string \<times> string option \<times> string) option" where
  "insertRegex_at s = Option.bind (Option.bind (match_ci ''INSERT INTO'' s) spaces1) insert_name"

text \<open>\<open>s.replace(/^[`\["]|[`\]"]$/g, '')\<close>: an opening quote at the start and a closing quote
  at the end are removed.\<close>

definition strip_quotes :: "string \<Rightarrow> string" where
  "strip_quotes s =
     (let s1 = (case s of [] \<Rightarrow> []
                | c # r \<Rightarrow> if c = CHR 0x60 \<or> c = CHR ''['' \<or> c = DQ then r else s)
      in if s1 \<noteq> [] \<and> (last s1 = CHR 0x60 \<or> last s1 = CHR '']'' \<or> last s1 = DQ)
         then butlast s1 else s1)"

text \<open>
  The column names: the matches of \<open>(`[^`]+`|\[[^\]]+\]|"[^"]+"|[^,]+)\<close> in the list, a
  quoted name or a run of characters other than the comma.
\<close>

definition column_token_at :: "string \<Rightarrow> (string \<times> string) option" where
  "column_token_at s =
     (case quoted_name (CHR 0x60) (CHR 0x60) s of
        Some q \<Rightarrow> Some q
      | None \<Rightarrow>
          (case quoted_name (CHR ''['') (CHR '']'') s of
             Some q \<Rightarrow> Some q
           | None \<Rightarrow>
               (case quoted_name DQ DQ s of
                  Some q \<Rightarrow> Some q
                | None \<Rightarrow>
                    if takeWhile (\<lambda>c. c \<noteq> CHR '','') s = [] then None
                    else Some (takeWhile (\<lambda>c. c \<noteq> CHR '','') s,
                               dropWhile (\<lambda>c. c \<noteq> CHR '','') s))))"

fun column_tokens :: "nat \<Rightarrow> string \<Rightarrow> string list" where
  "column_tokens k [] = []"
| "column_tokens (Suc k) (c # cs) = column_tokens k cs"
| "column_tokens 0 (c # cs) =
     (case column_token_at (c # cs) of
        Some (tok, r) \<Rightarrow> tok # column_tokens (length tok - 1) cs
      | None \<Rightarrow> column_tokens 0 cs)"

text \<open>
  A row object, as the list of its own properties in the order of their enumeration: the
  names that are array indices (the decimal numerals of the numbers up to \<open>2^32 - 2\<close>,
  without a leading zero) come first in ascending order, the other names follow in the
  order of their creation. The value \<open>None\<close> is \<open>undefined\<close>, the element of \<open>values\<close>
  beyond its end.
\<close>

type_synonym row_object = "(string \<times> js_value option) list"

definition array_index :: "string \<Rightarrow> nat option" where
  "array_index k =
     (if is_digits k \<and> (k = ''0'' \<or> \<not> startsWith k ''0'') \<and> decimal_value k \<le> 4294967294
      then Some (nat (decimal_value k)) else None)"

text \<open>The creation of a property that the object does not have.\<close>

fun insert_property :: "row_object \<Rightarrow> string \<Rightarrow> js_value option \<Rightarrow> row_object" where
  "insert_property [] k v = [(k, v)]"
| "insert_property ((k', v') # obj) k v =
     (case array_index k of
        None \<Rightarrow> (k', v') # insert_property obj k v
      | Some i \<Rightarrow>
          (case array_index k' of
             None \<Rightarrow> (k, v) # (k', v') # obj
           | Some j \<Rightarrow>
               if i < j then (k, v) # (k', v') # obj else (k', v') # insert_property obj k v))"

text \<open>The assignment to a data property: an own property keeps its place and takes the
  value, a new one is created.\<close>

definition set_property :: "row_object \<Rightarrow> string \<Rightarrow> js_value option \<Rightarrow> row_object" where
  "set_property obj k v =
     (if k \<in> set (map fst obj)
      then map (\<lambda>(k', v'). if k' = k then (k, v) else (k', v')) obj
      else insert_property obj k v)"

text \<open>
  \<open>obj[k] = v\<close> on an object that began as \<open>{}\<close>. The second component tells whether the
  prototype of the object is still \<open>Object.prototype\<close>. While it is, the name \<open>__proto__\<close>
  is the inherited accessor and the assignment stores no property: the value \<open>null\<close>
  becomes the prototype, and any other value of a row, none of which is an object, is
  ignored. Every other inherited property is a writable data property, and the
  assignment creates an own property. Without a prototype \<open>__proto__\<close> is a name as any
  other.
\<close>

definition assign :: "row_object \<times> bool \<Rightarrow> string \<Rightarrow> js_value option \<Rightarrow> row_object \<times> bool" where
  "assign ob k v =
     (case ob of
        (obj, inherits) \<Rightarrow>
          if k = ''__proto__'' \<and> inherits then (obj, v \<noteq> Some JNull)
          else (set_property obj k v, inherits))"

definition element :: "'a list \<Rightarrow> nat \<Rightarrow> 'a option" where
  "element xs i = (if i < length xs then Some (xs ! i) else None)"

text \<open>The loop \<open>for (let i = 0; i < columns.length; i++) obj[columns[i]] = values[i]\<close> on
  \<open>obj = {}\<close>, and the own properties of the object it leaves.\<close>

definition row_to_object :: "string list \<Rightarrow> js_value list \<Rightarrow> row_object" where
  "row_to_object cols vals =
     fst (foldl (\<lambda>ob i. assign ob (cols ! i) (element vals i)) ([], True) [0 ..< length cols])"

record insert_result =
  ins_tableName :: string
  ins_columns :: "string list"
  ins_rows :: "row_object list"

text \<open>
  \<open>parseInsertQuery\<close>: \<open>null\<close> (\<open>None\<close>) when the statement does not match; a list of
  columns without a single name makes \<open>match\<close> return \<open>null\<close>, whose \<open>map\<close> throws.
\<close>

definition parseInsertQuery :: "string \<Rightarrow> js_error + insert_result option" where
  "parseInsertQuery query =
     (case search insertRegex_at (trim query) of
        None \<Rightarrow> Inr None
      | Some (at, name, cols, valueSection) \<Rightarrow>
          (let tname = strip_quotes name;
               rawRows = map parseRow (extractRowStrings valueSection)
           in case (case cols of
                      None \<Rightarrow> Inr []
                    | Some l \<Rightarrow>
                        if l = [] then Inr []
                        else if column_tokens 0 l = [] then Inl TypeError
                        else Inr (map (\<lambda>c. strip_quotes (trim c)) (column_tokens 0 l))) of
                Inl e \<Rightarrow> Inl e
              | Inr cnames \<Rightarrow>
                  Inr (Some \<lparr>ins_tableName = tname, ins_columns = cnames,
                             ins_rows = map (row_to_object cnames) rawRows\<rparr>)))"

section \<open>Properties of the row tokenizer\<close>

text \<open>The character classes are those of the ASCII letters and digits.\<close>

lemma character_classes:
  "filter is_lower Enum.enum = lower_letters" "filter is_upper Enum.enum = upper_letters"
  "filter is_digit Enum.enum = digit_chars"
  "map toUpperCase_char lower_letters = upper_letters"
  "map toLowerCase_char upper_letters = lower_letters"
  by code_simp+

text \<open>
  Claim C6. \<open>parseRow\<close> applied to the row text \<open>1, 'Alice, Jr', NULL, TRUE\<close> returns the
  four values \<open>1\<close>, the string \<open>Alice, Jr\<close>, \<open>null\<close> and \<open>true\<close>: the unquoted numeric
  token becomes a number, the quoted token a string without its quotes and with its comma
  kept, and the tokens \<open>NULL\<close> and \<open>TRUE\<close> become \<open>null\<close> and \<open>true\<close>; the keywords are
  recognised in any letter case, as the second row shows.
\<close>

theorem parseRow_alice:
  "parseRow ''1, 'Alice, Jr', NULL, TRUE'' = [JNum 1, JStr ''Alice, Jr'', JNull, JBool True]
   \<and> parseRow ''null,True,fAlSe'' = [JNull, JBool True, JBool False]"
  by code_simp

subsection \<open>extractRowStrings on well-formed VALUES sections\<close>

lemma ers_pieces_sq:
  "list_all (wf_piece SQ) ps \<Longrightarrow> \<not> startsWith rest [SQ] \<Longrightarrow>
   ers_loop rows buf True False False d (render_pieces SQ ps @ SQ # rest)
   = ers_loop rows (buf @ render_pieces SQ ps @ [SQ]) False False False d rest"
proof (induction ps arbitrary: buf)
  case Nil
  then show ?case by (cases rest) (simp_all add: render_pieces_def startsWith_def)
next
  case (Cons p ps)
  then have ih: "\<And>b. ers_loop rows b True False False d (render_pieces SQ ps @ SQ # rest)
   = ers_loop rows (b @ render_pieces SQ ps @ [SQ]) False False False d rest"
    and wp: "wf_piece SQ p" by simp_all
  show ?case
  proof (cases p)
    case (PChar c)
    with wp ih show ?thesis by (simp add: render_pieces_def)
  next
    case PPair
    with ih show ?thesis by (simp add: render_pieces_def)
  next
    case (PEsc c)
    with ih show ?thesis by (simp add: render_pieces_def)
  qed
qed


lemma ers_pieces_dq:
  "list_all (wf_piece DQ) ps \<Longrightarrow> \<not> startsWith rest [DQ] \<Longrightarrow>
   ers_loop rows buf False True False d (render_pieces DQ ps @ DQ # rest)
   = ers_loop rows (buf @ render_pieces DQ ps @ [DQ]) False False False d rest"
proof (induction ps arbitrary: buf)
  case Nil
  then show ?case by (cases rest) (simp_all add: render_pieces_def startsWith_def)
next
  case (Cons p ps)
  then have ih: "\<And>b. ers_loop rows b False True False d (render_pieces DQ ps @ DQ # rest)
   = ers_loop rows (b @ render_pieces DQ ps @ [DQ]) False False False d rest"
    and wp: "wf_piece DQ p" by simp_all
  show ?case
  proof (cases p)
    case (PChar c)
    with wp ih show ?thesis by (simp add: render_pieces_def)
  next
    case PPair
    with ih show ?thesis by (simp add: render_pieces_def)
  next
    case (PEsc c)
    with ih show ?thesis by (simp add: render_pieces_def)
  qed
qed

lemma follows_ok_append: "s \<noteq> [] \<Longrightarrow> follows_ok x (u @ s @ t) = follows_ok x (u @ s)"
  by (cases x; cases u; cases s) (simp_all add: startsWith_def)

lemma adjacent_ok_append: "s \<noteq> [] \<Longrightarrow> adjacent_ok b (s @ t) = adjacent_ok b s"
  by (induction b) (simp_all add: follows_ok_append)

lemma scans_items:
  assumes "\<forall>x \<in> set its. scans_item x" "0 < d" "list_all wf_item its" "adjacent_ok its rest"
  shows "ers_loop rows buf False False False d (render_items its @ rest)
     = ers_loop rows (buf @ render_items its) False False False d rest"
  using assms
proof (induction its arbitrary: buf)
  case Nil
  then show ?case by (simp add: render_items_def)
next
  case (Cons x r)
  from Cons.prems have sx: "scans_item x" and wx: "wf_item x"
    and fx: "follows_ok x (render_items r @ rest)" by simp_all
  have "ers_loop rows buf False False False d (render_items (x # r) @ rest)
      = ers_loop rows buf False False False d (render_item x @ (render_items r @ rest))"
    by (simp add: render_items_def)
  also have "\<dots> = ers_loop rows (buf @ render_item x) False False False d (render_items r @ rest)"
    using sx wx fx \<open>0 < d\<close> unfolding scans_item_def by blast
  also have "\<dots> = ers_loop rows ((buf @ render_item x) @ render_items r) False False False d rest"
    using Cons.IH [of "buf @ render_item x"] Cons.prems by simp
  finally show ?case by (simp add: render_items_def)
qed

lemma scans_item_all: "scans_item x"
proof (induction x)
  case (Plain c)
  show ?case unfolding scans_item_def by simp
next
  case (Esc c)
  show ?case unfolding scans_item_def by simp
next
  case (SQuoted ps)
  show ?case unfolding scans_item_def
  proof (intro allI impI)
    fix rows buf d rest
    assume "wf_item (SQuoted ps)" "follows_ok (SQuoted ps) rest"
    then show "ers_loop rows buf False False False d (render_item (SQuoted ps) @ rest)
        = ers_loop rows (buf @ render_item (SQuoted ps)) False False False d rest"
      using ers_pieces_sq [of ps rest rows "buf @ [SQ]" d]
      by (cases "render_pieces SQ ps @ SQ # rest") simp_all
  qed
next
  case (DQuoted ps)
  show ?case unfolding scans_item_def
  proof (intro allI impI)
    fix rows buf d rest
    assume "wf_item (DQuoted ps)" "follows_ok (DQuoted ps) rest"
    then show "ers_loop rows buf False False False d (render_item (DQuoted ps) @ rest)
        = ers_loop rows (buf @ render_item (DQuoted ps)) False False False d rest"
      using ers_pieces_dq [of ps rest rows "buf @ [DQ]" d]
      by (cases "render_pieces DQ ps @ DQ # rest") simp_all
  qed
next
  case (Group b)
  show ?case unfolding scans_item_def
  proof (intro allI impI)
    fix rows buf and d :: int and rest
    assume d: "0 < d" and wf: "wf_item (Group b)"
    have "ers_loop rows buf False False False d (render_item (Group b) @ rest)
        = ers_loop rows (buf @ ''('') False False False (d + 1) (render_items b @ CHR '')'' # rest)"
      using d by (simp add: render_items_def)
    also have "\<dots> = ers_loop rows ((buf @ ''('') @ render_items b) False False False (d + 1)
          (CHR '')'' # rest)"
    proof (rule scans_items)
      show "\<forall>x\<in>set b. scans_item x" using Group.IH by blast
      show "0 < d + 1" using d by simp
      show "list_all wf_item b" using wf by simp
      show "adjacent_ok b (CHR '')'' # rest)"
        using wf adjacent_ok_append [of "'')''" b rest] by simp
    qed
    also have "\<dots> = ers_loop rows (buf @ render_item (Group b)) False False False d rest"
      using d by (simp add: render_items_def)
    finally show "ers_loop rows buf False False False d (render_item (Group b) @ rest)
        = ers_loop rows (buf @ render_item (Group b)) False False False d rest" .
  qed
qed


text \<open>At the top level (\<open>depth = 0\<close>) every group adds its body to the rows.\<close>

lemma close_row_group: "close_row (''('' @ body @ '')'') = body"
  by (simp add: close_row_def startsWith_def endsWith_def)

lemma ers_top:
  "list_all wf_item its \<Longrightarrow> adjacent_ok its [] \<Longrightarrow>
   ers_loop rows buf False False False 0 (render_items its)
   = rows @ map render_items (group_bodies its)"
proof (induction its arbitrary: rows buf)
  case Nil
  then show ?case by (simp add: render_items_def)
next
  case (Cons x r)
  then have wx: "wf_item x" and fx: "follows_ok x (render_items r)"
    and ih: "\<And>rows buf. ers_loop rows buf False False False 0 (render_items r)
        = rows @ map render_items (group_bodies r)"
    by simp_all
  have split: "render_items (x # r) = render_item x @ render_items r"
    by (simp add: render_items_def)
  show ?case
  proof (cases x)
    case (Plain c)
    with wx ih show ?thesis unfolding split by simp
  next
    case (Esc c)
    with ih show ?thesis unfolding split by simp
  next
    case (SQuoted ps)
    with wx fx ih ers_pieces_sq [of ps "render_items r" rows "buf @ [SQ]" 0]
    show ?thesis unfolding split
      by (cases "render_pieces SQ ps @ SQ # render_items r") simp_all
  next
    case (DQuoted ps)
    with wx fx ih ers_pieces_dq [of ps "render_items r" rows "buf @ [DQ]" 0]
    show ?thesis unfolding split
      by (cases "render_pieces DQ ps @ DQ # render_items r") simp_all
  next
    case (Group b)
    have "ers_loop rows buf False False False 0 (render_item (Group b) @ render_items r)
        = ers_loop rows ''('' False False False 1 (render_items b @ CHR '')'' # render_items r)"
      by (simp add: render_items_def)
    also have "\<dots> = ers_loop rows (''('' @ render_items b) False False False 1
          (CHR '')'' # render_items r)"
    proof (rule scans_items)
      show "\<forall>x\<in>set b. scans_item x" by (simp add: scans_item_all)
      show "(0::int) < 1" by simp
      show "list_all wf_item b" using wx Group by simp
      show "adjacent_ok b (CHR '')'' # render_items r)"
        using wx Group adjacent_ok_append [of "'')''" b "render_items r"] by simp
    qed
    also have "\<dots> = ers_loop (rows @ [close_row (''('' @ render_items b @ '')'')]) []
          False False False 0 (render_items r)"
      by simp
    also have "\<dots> = (rows @ [render_items b]) @ map render_items (group_bodies r)"
      unfolding close_row_group by (rule ih)
    finally show ?thesis unfolding split using Group by simp
  qed
qed

text \<open>
  Claim C1. For every VALUES section made of well-formed items (balanced parentheses,
  closed literals), \<open>extractRowStrings\<close> returns exactly one string for each top-level
  group, in order, each the text of the group without its outer parentheses; so a section
  with \<open>n\<close> top-level groups gives \<open>n\<close> strings, whatever commas, parentheses or quote
  characters stand inside the quoted literals of the groups.
\<close>

theorem extractRowStrings_groups:
  assumes "list_all wf_item its" and "adjacent_ok its []"
  shows "extractRowStrings (render_items its) = map render_items (group_bodies its)
     \<and> length (extractRowStrings (render_items its)) = length (group_bodies its)"
  using ers_top [OF assms, of "[]" "[]"] by (simp add: extractRowStrings_def)

theorem extractRowStrings_groups_witness:
  "list_all wf_item example_values \<and> adjacent_ok example_values [] \<and>
   extractRowStrings (render_items example_values)
     = [render_items example_row1, render_items example_row2] \<and>
   length (extractRowStrings (render_items example_values)) = 2"
proof -
  have a: "list_all wf_item example_values"
    by (simp add: example_values_def example_row1_def example_row2_def render_items_def
        render_pieces_def startsWith_def)
  have b: "adjacent_ok example_values []"
    by (simp add: example_values_def example_row1_def example_row2_def render_items_def
        render_pieces_def startsWith_def)
  show ?thesis using a b extractRowStrings_groups [OF a b] by (simp add: example_values_def)
qed

section \<open>Properties of the depth calculation\<close>

lemma sound_memo_update:
  assumes s: "sound_memo g v1" and n: "v1 n = None"
    and ps: "list_all2 (\<lambda>p d. v1 p = Some d) (stored_parents g n) ds"
    and d: "d = (if length (stored_parents g n) > 0 then Max (set ds) else 0) + 1"
  shows "sound_memo g (v1(n \<mapsto> d))"
  unfolding sound_memo_def
proof (intro allI impI)
  fix m k assume mk: "(v1(n \<mapsto> d)) m = Some k"
  have dom_ps: "set (stored_parents g n) \<subseteq> dom v1"
    using ps by (auto simp: list_all2_conv_all_nth in_set_conv_nth)
  have ds: "ds = map (\<lambda>p. the (v1 p)) (stored_parents g n)"
    using ps by (induction rule: list_all2_induct) auto
  show "set (stored_parents g m) \<subseteq> dom (v1(n \<mapsto> d)) \<and>
        k = depth_formula g (\<lambda>p. the ((v1(n \<mapsto> d)) p)) m"
  proof (cases "m = n")
    case True
    have same: "\<And>p. p \<in> set (stored_parents g n) \<Longrightarrow> the ((v1(n \<mapsto> d)) p) = the (v1 p)"
      using dom_ps n by auto
    have "(\<lambda>p. the ((v1(n \<mapsto> d)) p)) ` set (stored_parents g n) = set ds"
      using same unfolding ds by (auto simp: image_iff)
    then show ?thesis using True mk d dom_ps
      by (auto simp: depth_formula_def)
  next
    case False
    with mk have vm: "v1 m = Some k" by simp
    with s have sub: "set (stored_parents g m) \<subseteq> dom v1"
      and k: "k = depth_formula g (\<lambda>p. the (v1 p)) m"
      unfolding sound_memo_def by blast+
    have same: "\<And>p. p \<in> set (stored_parents g m) \<Longrightarrow> the ((v1(n \<mapsto> d)) p) = the (v1 p)"
      using sub n by auto
    then have "(\<lambda>p. the ((v1(n \<mapsto> d)) p)) ` set (stored_parents g m)
        = (\<lambda>p. the (v1 p)) ` set (stored_parents g m)"
      by (auto simp: image_iff)
    then show ?thesis using sub k by (auto simp: depth_formula_def)
  qed
qed

text \<open>The read of a name that has an array of its own yields the array.\<close>

lemma graph_get_stored: "n \<in> fst ` set g \<Longrightarrow> graph_get g n = Array (stored_parents g n)"
proof -
  assume "n \<in> fst ` set g"
  then have "map_of g n \<noteq> None" by (simp add: map_of_eq_None_iff)
  then show ?thesis by (auto simp: graph_get_def stored_parents_def)
qed

lemma dfs_sound:
  shows "ranked g rank \<Longrightarrow> closed_graph g \<Longrightarrow> sound_memo g v \<Longrightarrow> n \<in> fst ` set g
      \<Longrightarrow> (\<forall>s \<in> seen. rank n < rank s)
      \<Longrightarrow> dfs_post g rank v n (dfs g v seen n)"
    and "ranked g rank \<Longrightarrow> closed_graph g \<Longrightarrow> sound_memo g v \<Longrightarrow> set ps \<subseteq> fst ` set g
      \<Longrightarrow> (\<forall>p \<in> set ps. \<forall>s \<in> seen. rank p < rank s)
      \<Longrightarrow> dfs_parents_post g rank v ps (dfs_parents g v seen ps)"
proof (induction g v seen n and g v seen ps rule: dfs_dfs_parents.induct)
  case (1 g visited seen entityName)
  note rk = "1.prems"(1) and cl = "1.prems"(2)
  show ?case
  proof (cases "visited entityName")
    case (Some d)
    then show ?thesis using "1.prems" by (auto simp: dfs_post_def)
  next
    case None
    have notseen: "entityName \<notin> seen" using "1.prems"(5) by auto
    have gg: "graph_get g entityName = Array (stored_parents g entityName)"
      using "1.prems"(4) by (rule graph_get_stored)
    have keys: "set (stored_parents g entityName) \<subseteq> fst ` set g"
      using cl unfolding closed_graph_def by blast
    have pre: "\<forall>p \<in> set (stored_parents g entityName). \<forall>s \<in> insert entityName seen. rank p < rank s"
    proof (intro ballI)
      fix p s assume p: "p \<in> set (stored_parents g entityName)" and s: "s \<in> insert entityName seen"
      from rk p have lt: "rank p < rank entityName" unfolding ranked_def by blast
      show "rank p < rank s"
      proof (cases "s = entityName")
        case True with lt show ?thesis by simp
      next
        case False
        with s "1.prems"(5) have "rank entityName < rank s" by auto
        with lt show ?thesis by simp
      qed
    qed
    have post0: "dfs_parents_post g rank visited (stored_parents g entityName)
        (dfs_parents g visited (insert entityName seen) (stored_parents g entityName))"
      using "1.IH" [OF None notseen gg rk cl "1.prems"(3) keys pre] .
    then obtain ds v1 where
      r: "dfs_parents g visited (insert entityName seen) (stored_parents g entityName) = Inr (ds, v1)"
      by (cases "dfs_parents g visited (insert entityName seen) (stored_parents g entityName)")
        (auto simp: dfs_parents_post_def)
    from post0 have s1: "sound_memo g v1" and sub: "visited \<subseteq>\<^sub>m v1"
      and l2: "list_all2 (\<lambda>p d. v1 p = Some d) (stored_parents g entityName) ds"
      and new: "\<forall>m. visited m = None \<and> v1 m \<noteq> None
          \<longrightarrow> (\<exists>p \<in> set (stored_parents g entityName). rank m \<le> rank p)"
      unfolding r dfs_parents_post_def by simp_all
    have v1n: "v1 entityName = None"
    proof (rule ccontr)
      assume "v1 entityName \<noteq> None"
      with new None obtain p where "p \<in> set (stored_parents g entityName)" "rank entityName \<le> rank p"
        by blast
      moreover from rk this(1) have "rank p < rank entityName" unfolding ranked_def by blast
      ultimately show False by simp
    qed
    define d where "d = (if length (stored_parents g entityName) > 0 then Max (set ds) else 0) + 1"
    have res: "dfs g visited seen entityName = Inr (d, v1(entityName \<mapsto> d))"
      using None notseen gg r by (simp add: d_def Let_def)
    have a: "sound_memo g (v1(entityName \<mapsto> d))"
      by (rule sound_memo_update [OF s1 v1n l2 d_def])
    have b: "visited \<subseteq>\<^sub>m v1(entityName \<mapsto> d)"
      using sub None by (auto simp: map_le_def dom_def)
    have c: "\<forall>m. visited m = None \<and> (v1(entityName \<mapsto> d)) m \<noteq> None \<longrightarrow> rank m \<le> rank entityName"
    proof (intro allI impI)
      fix m assume m: "visited m = None \<and> (v1(entityName \<mapsto> d)) m \<noteq> None"
      show "rank m \<le> rank entityName"
      proof (cases "m = entityName")
        case True then show ?thesis by simp
      next
        case False
        with m new obtain p where "p \<in> set (stored_parents g entityName)" "rank m \<le> rank p" by auto
        moreover from rk this(1) have "rank p < rank entityName" unfolding ranked_def by blast
        ultimately show ?thesis by simp
      qed
    qed
    show ?thesis unfolding res dfs_post_def using a b c by simp
  qed
next
  case (2 g visited seen)
  then show ?case by (auto simp: dfs_parents_post_def)
next
  case (3 g visited seen p ps)
  note rk = "3.prems"(1) and cl = "3.prems"(2)
  have pk: "p \<in> fst ` set g" and psk: "set ps \<subseteq> fst ` set g" using "3.prems"(4) by auto
  have pseen: "\<forall>s \<in> seen. rank p < rank s"
    and psseen: "\<forall>q \<in> set ps. \<forall>s \<in> seen. rank q < rank s" using "3.prems"(5) by auto
  have p1: "dfs_post g rank visited p (dfs g visited seen p)"
    using "3.IH"(1) [OF rk cl "3.prems"(3) pk pseen] .
  then obtain d v1 where r1: "dfs g visited seen p = Inr (d, v1)"
    by (cases "dfs g visited seen p") (auto simp: dfs_post_def)
  from p1 have s1: "sound_memo g v1" and sub1: "visited \<subseteq>\<^sub>m v1" and vp: "v1 p = Some d"
    and new1: "\<forall>m. visited m = None \<and> v1 m \<noteq> None \<longrightarrow> rank m \<le> rank p"
    unfolding r1 dfs_post_def by simp_all
  have p2: "dfs_parents_post g rank v1 ps (dfs_parents g v1 seen ps)"
    using "3.IH"(2) [OF r1 refl rk cl s1 psk psseen] .
  then obtain ds v2 where r2: "dfs_parents g v1 seen ps = Inr (ds, v2)"
    by (cases "dfs_parents g v1 seen ps") (auto simp: dfs_parents_post_def)
  from p2 have s2: "sound_memo g v2" and sub2: "v1 \<subseteq>\<^sub>m v2"
    and l2: "list_all2 (\<lambda>p d. v2 p = Some d) ps ds"
    and new2: "\<forall>m. v1 m = None \<and> v2 m \<noteq> None \<longrightarrow> (\<exists>p \<in> set ps. rank m \<le> rank p)"
    unfolding r2 dfs_parents_post_def by simp_all
  have res: "dfs_parents g visited seen (p # ps) = Inr (d # ds, v2)"
    using r1 r2 by simp
  have vp2: "v2 p = Some d" using vp sub2 by (auto simp: map_le_def dom_def)
  have sub: "visited \<subseteq>\<^sub>m v2" using sub1 sub2 by (rule map_le_trans)
  have new: "\<forall>m. visited m = None \<and> v2 m \<noteq> None \<longrightarrow> (\<exists>q \<in> set (p # ps). rank m \<le> rank q)"
  proof (intro allI impI)
    fix m assume m: "visited m = None \<and> v2 m \<noteq> None"
    show "\<exists>q \<in> set (p # ps). rank m \<le> rank q"
    proof (cases "v1 m")
      case None
      with m new2 show ?thesis by auto
    next
      case (Some k)
      with m new1 show ?thesis by auto
    qed
  qed
  show ?case unfolding res dfs_parents_post_def using s2 sub l2 vp2 new by simp
qed

lemma depth_loop_sound:
  "ranked g rank \<Longrightarrow> closed_graph g \<Longrightarrow> sound_memo g v \<Longrightarrow> set (map ent_name es) \<subseteq> fst ` set g \<Longrightarrow>
   \<exists>vf D. depth_loop g v es = Inr D \<and> sound_memo g vf \<and> v \<subseteq>\<^sub>m vf \<and>
        (\<forall>e \<in> set D. vf (ent_name e) = Some (ent_depth e)) \<and>
        map ent_name D = map ent_name es"
proof (induction es arbitrary: v)
  case Nil
  then show ?case by auto
next
  case (Cons e es)
  have ek: "ent_name e \<in> fst ` set g" and esk: "set (map ent_name es) \<subseteq> fst ` set g"
    using Cons.prems(4) by auto
  have p: "dfs_post g rank v (ent_name e) (dfs g v {} (ent_name e))"
    using dfs_sound(1) [OF Cons.prems(1) Cons.prems(2) Cons.prems(3) ek, of "{}"] by simp
  then obtain d v1 where r: "dfs g v {} (ent_name e) = Inr (d, v1)"
    by (cases "dfs g v {} (ent_name e)") (auto simp: dfs_post_def)
  from p have s1: "sound_memo g v1" and sub1: "v \<subseteq>\<^sub>m v1" and ve: "v1 (ent_name e) = Some d"
    unfolding r dfs_post_def by simp_all
  from Cons.IH [OF Cons.prems(1) Cons.prems(2) s1 esk] obtain vf D where
    D: "depth_loop g v1 es = Inr D"
    and sf: "sound_memo g vf" and subf: "v1 \<subseteq>\<^sub>m vf"
    and all: "\<forall>e \<in> set D. vf (ent_name e) = Some (ent_depth e)"
    and names: "map ent_name D = map ent_name es"
    by blast
  have "vf (ent_name e) = Some d" using ve subf by (auto simp: map_le_def dom_def)
  moreover have "v \<subseteq>\<^sub>m vf" using sub1 subf by (rule map_le_trans)
  ultimately show ?case using sf all names r D
    by (intro exI [of _ vf] exI [of _ "e\<lparr>ent_depth := d\<rparr> # D"]) simp
qed

lemma build_graph_keys: "fst ` set (build_graph es) = set (map ent_name es)"
  by (force simp: build_graph_def)

lemma stored_parents_build_entity:
  "stored_parents (build_graph es) n = [] \<or>
   (\<exists>e. e \<in> set es \<and> ent_name e = n \<and>
        stored_parents (build_graph es) n = references (map ent_name es) e)"
proof (cases "map_of (build_graph es) n")
  case None
  then show ?thesis by (auto simp: stored_parents_def)
next
  case (Some ps)
  then have "(n, ps) \<in> set (build_graph es)" by (rule map_of_SomeD)
  then obtain e where "e \<in> set es" "ent_name e = n" "ps = references (map ent_name es) e"
    by (auto simp: build_graph_def)
  then show ?thesis using Some by (auto simp: stored_parents_def)
qed

lemma stored_parents_distinct:
  assumes "distinct (map ent_name es)" "e \<in> set es"
  shows "stored_parents (build_graph es) (ent_name e) = references (map ent_name es) e"
proof -
  have d: "distinct (map fst (build_graph es))"
    using assms(1) by (simp add: build_graph_def rev_map [symmetric] comp_def)
  have "(ent_name e, references (map ent_name es) e) \<in> set (build_graph es)"
    using assms(2) by (auto simp: build_graph_def)
  from map_of_is_SomeI [OF d this] show ?thesis by (simp add: stored_parents_def)
qed

lemma closed_graph_build:
  assumes "refers_to_entities es"
  shows "closed_graph (build_graph es)"
  unfolding closed_graph_def
proof (intro allI subsetI)
  fix n p assume p: "p \<in> set (stored_parents (build_graph es) n)"
  with stored_parents_build_entity [of es n] obtain e where
    "e \<in> set es" "stored_parents (build_graph es) n = references (map ent_name es) e"
    by auto
  with assms p have "p \<in> set (map ent_name es)"
    by (auto simp: refers_to_entities_def list_all_iff)
  then show "p \<in> fst ` set (build_graph es)" by (simp only: build_graph_keys)
qed

lemma depth_of_memo:
  assumes "\<forall>e \<in> set D. vf (ent_name e) = Some (ent_depth e)" "n \<in> set (map ent_name D)"
  shows "depth_of D n = the (vf n)"
proof -
  from assms(2) obtain e where "find (\<lambda>e. ent_name e = n) D = Some e"
    by (cases "find (\<lambda>e. ent_name e = n) D") (auto simp: find_None_iff)
  moreover then have "e \<in> set D" "ent_name e = n"
    by (auto simp: find_Some_iff in_set_conv_nth)
  ultimately show ?thesis using assms(1) by (auto simp: depth_of_def)
qed

lemma calculateEntityDepth_formula:
  assumes rk: "\<forall>e \<in> set es. \<forall>p \<in> set (references (map ent_name es) e).
      (rank p :: nat) < rank (ent_name e)"
    and own: "refers_to_entities es"
  shows "\<exists>D. calculateEntityDepth es False = Inr D \<and> map ent_name D = map ent_name es \<and>
     (\<forall>e \<in> set es. depth_of D (ent_name e) = depth_formula (build_graph es) (depth_of D) (ent_name e))"
proof -
  let ?g = "build_graph es"
  have ranked: "ranked ?g rank"
    unfolding ranked_def
  proof (intro allI impI)
    fix n p assume p: "p \<in> set (stored_parents ?g n)"
    with stored_parents_build_entity [of es n] obtain e' where
      "e' \<in> set es" "ent_name e' = n" "stored_parents ?g n = references (map ent_name es) e'"
      by auto
    with rk p show "rank p < rank n" by auto
  qed
  have closed: "closed_graph ?g" using own by (rule closed_graph_build)
  have "sound_memo ?g Map.empty" by (simp add: sound_memo_def)
  from depth_loop_sound [OF ranked closed this, of es] obtain vf D where
    D: "depth_loop ?g Map.empty es = Inr D"
    and sf: "sound_memo ?g vf"
    and all: "\<forall>e \<in> set D. vf (ent_name e) = Some (ent_depth e)"
    and names: "map ent_name D = map ent_name es"
    by (auto simp only: build_graph_keys)
  have res: "calculateEntityDepth es False = Inr D"
    using D by (simp add: calculateEntityDepth_def)
  have mem: "\<And>n. n \<in> set (map ent_name es) \<Longrightarrow> depth_of D n = the (vf n)"
    using depth_of_memo [OF all] names by simp
  have "depth_of D (ent_name e) = depth_formula ?g (depth_of D) (ent_name e)"
    if e: "e \<in> set es" for e
  proof -
    have en: "ent_name e \<in> set (map ent_name es)" using e by simp
    then obtain e' where e': "e' \<in> set D" "ent_name e' = ent_name e"
      unfolding names [symmetric] by auto
    with all have ve: "vf (ent_name e) = Some (ent_depth e')" by auto
    with sf have "ent_depth e' = depth_formula ?g (\<lambda>p. the (vf p)) (ent_name e)"
      unfolding sound_memo_def by blast
    moreover have "the (vf (ent_name e)) = ent_depth e'" using ve by simp
    moreover have "depth_formula ?g (\<lambda>p. the (vf p)) (ent_name e)
        = depth_formula ?g (depth_of D) (ent_name e)"
    proof -
      have "set (stored_parents ?g (ent_name e)) \<subseteq> set (map ent_name es)"
        using closed unfolding closed_graph_def build_graph_keys by blast
      then have "\<And>p. p \<in> set (stored_parents ?g (ent_name e)) \<Longrightarrow> the (vf p) = depth_of D p"
        using mem by auto
      then have "(\<lambda>p. the (vf p)) ` set (stored_parents ?g (ent_name e))
          = depth_of D ` set (stored_parents ?g (ent_name e))"
        by (auto simp: image_iff)
      then show ?thesis by (simp add: depth_formula_def)
    qed
    ultimately show ?thesis using mem [OF en] by simp
  qed
  with res names show ?thesis by blast
qed

text \<open>
  A column named after an inherited property counts as a reference: \<open>toString_id\<close> and
  \<open>__proto___id\<close> give the entity the depth 2, and on \<open>constructor_id\<close> the call throws.
\<close>

lemma calculateEntityDepth_inherited_names:
  "calculateEntityDepth [mk_entity ''a'' [''toString_id'']] False
     = Inr [(mk_entity ''a'' [''toString_id''])\<lparr>ent_depth := 2\<rparr>]"
  "calculateEntityDepth [mk_entity ''a'' [''__proto___id'']] False
     = Inr [(mk_entity ''a'' [''__proto___id''])\<lparr>ent_depth := 2\<rparr>]"
  "calculateEntityDepth [mk_entity ''a'' [''constructor_id'']] False = Inl TypeError"
  by code_simp+

text \<open>
  Claim C2, as amended. For entities with pairwise distinct names, whose inferred
  references all name entities and form no cycle (some ranking of the names decreases
  along every reference), \<open>calculateEntityDepth\<close> returns the entities in place and gives
  depth 1 to every entity without inferred dependencies and one more than the greatest
  depth of its direct dependencies to every other entity; on the diamond, where \<open>b\<close> and
  \<open>c\<close> reference \<open>a\<close> and \<open>d\<close> references \<open>b\<close> and \<open>c\<close>, the depths are 1, 2, 2 and 3.
\<close>

theorem calculateEntityDepth_acyclic:
  assumes "distinct (map ent_name es)"
    and "refers_to_entities es"
    and "\<forall>e \<in> set es. \<forall>p \<in> set (references (map ent_name es) e).
      (rank p :: nat) < rank (ent_name e)"
  shows "(\<exists>res. calculateEntityDepth es False = Inr res \<and>
        map ent_name res = map ent_name es \<and>
        (\<forall>e \<in> set es.
           depth_of res (ent_name e)
           = (if references (map ent_name es) e = [] then 1
              else 1 + Max (depth_of res ` set (references (map ent_name es) e)))))
     \<and> calculateEntityDepth diamond False
         = Inr (map2 (\<lambda>e d. e\<lparr>ent_depth := d\<rparr>) diamond [1, 2, 2, 3])"
proof (intro conjI)
  from calculateEntityDepth_formula [OF assms(3) assms(2)] obtain D where
    D: "calculateEntityDepth es False = Inr D" "map ent_name D = map ent_name es"
    and f: "\<forall>e \<in> set es. depth_of D (ent_name e)
        = depth_formula (build_graph es) (depth_of D) (ent_name e)"
    by blast
  have "depth_of D (ent_name e)
        = (if references (map ent_name es) e = [] then 1
           else 1 + Max (depth_of D ` set (references (map ent_name es) e)))"
    if e: "e \<in> set es" for e
    using f e stored_parents_distinct [OF assms(1) e] by (simp add: depth_formula_def)
  with D show "\<exists>res. calculateEntityDepth es False = Inr res \<and>
        map ent_name res = map ent_name es \<and>
        (\<forall>e \<in> set es.
           depth_of res (ent_name e)
           = (if references (map ent_name es) e = [] then 1
              else 1 + Max (depth_of res ` set (references (map ent_name es) e))))"
    by blast
next
  show "calculateEntityDepth diamond False
      = Inr (map2 (\<lambda>e d. e\<lparr>ent_depth := d\<rparr>) diamond [1, 2, 2, 3])"
    by code_simp
qed

theorem calculateEntityDepth_acyclic_witness:
  "distinct (map ent_name diamond) \<and> refers_to_entities diamond \<and>
   diamond_rank ''a'' < diamond_rank ''b'' \<and> diamond_rank ''a'' < diamond_rank ''c'' \<and>
   diamond_rank ''b'' < diamond_rank ''d'' \<and> diamond_rank ''c'' < diamond_rank ''d'' \<and>
   (\<exists>res. calculateEntityDepth diamond False = Inr res \<and>
      map ent_name res = [''a'', ''b'', ''c'', ''d''] \<and>
      depth_of res ''a'' = 1 \<and>
      depth_of res ''d'' = 1 + Max (depth_of res ` set [''b'', ''c'']))"
proof -
  have d: "distinct (map ent_name diamond)"
    by (simp add: diamond_def mk_entity_def)
  have o: "refers_to_entities diamond" by code_simp
  have r: "\<forall>e \<in> set diamond. \<forall>p \<in> set (references (map ent_name diamond) e).
      diamond_rank p < diamond_rank (ent_name e)"
  proof -
    have "list_all (\<lambda>e. list_all (\<lambda>p. diamond_rank p < diamond_rank (ent_name e))
        (references (map ent_name diamond) e)) diamond"
      by code_simp
    then show ?thesis by (simp add: list_all_iff)
  qed
  have ea: "mk_entity ''a'' [''id'', ''label''] \<in> set diamond"
    and ed: "mk_entity ''d'' [''id'', ''b_id'', ''c_id''] \<in> set diamond"
    by (simp_all add: diamond_def)
  have ra: "references (map ent_name diamond) (mk_entity ''a'' [''id'', ''label'']) = []"
    and rd: "references (map ent_name diamond) (mk_entity ''d'' [''id'', ''b_id'', ''c_id''])
        = [''b'', ''c'']"
    by code_simp+
  from calculateEntityDepth_acyclic [OF d o r] obtain res where
    res: "calculateEntityDepth diamond False = Inr res"
    and n: "map ent_name res = map ent_name diamond"
    and f: "\<forall>e \<in> set diamond.
        depth_of res (ent_name e)
        = (if references (map ent_name diamond) e = [] then 1
           else 1 + Max (depth_of res ` set (references (map ent_name diamond) e)))"
    by blast
  from f ea ra have "depth_of res ''a'' = 1"
    by (auto simp: mk_entity_def)
  moreover from f ed rd have "depth_of res ''d'' = 1 + Max (depth_of res ` set [''b'', ''c''])"
    by (auto simp: mk_entity_def)
  moreover have "map ent_name res = [''a'', ''b'', ''c'', ''d'']"
    using n by (simp add: diamond_def mk_entity_def)
  ultimately show ?thesis using d o res by (simp add: diamond_rank_def)
qed

text \<open>
  On a cycle the rule of claim C2 fails as stated: with \<open>a\<close> referencing \<open>b\<close> and \<open>b\<close>
  referencing \<open>a\<close>, the entity \<open>b\<close> has the dependency \<open>a\<close> of depth 2 and itself depth 1.
  It fails as well for two entities of one name, which share the entry of the graph that
  the second one wrote: the first entity references \<open>b\<close>, of depth 1, and has depth 1.
\<close>

theorem calculateEntityDepth_cycle_counterexample:
  "references (map ent_name (cycle2 ''a'' ''b'')) (mk_entity ''b'' [''a_id'']) = [''a''] \<and>
   calculateEntityDepth (cycle2 ''a'' ''b'') False
     = Inr (map2 (\<lambda>e d. e\<lparr>ent_depth := d\<rparr>) (cycle2 ''a'' ''b'') [2, 1]) \<and>
   references (map ent_name same_name) (mk_entity ''a'' [''b_id'']) = [''b''] \<and>
   calculateEntityDepth same_name False
     = Inr (map2 (\<lambda>e d. e\<lparr>ent_depth := d\<rparr>) same_name [1, 1, 1])"
  by code_simp

subsection \<open>A cycle of two entities\<close>

lemma reference_column:
  assumes "has_reference_column e n" "n \<noteq> ent_name e" "n \<in> set names"
  shows "n \<in> set (references names e)"
proof -
  have "endsWith (n @ ''_id'') ''_id''" by (simp add: endsWith_def)
  moreover have "take (length (n @ ''_id'') - 3) (n @ ''_id'') = n" by simp
  ultimately show ?thesis
    using assms unfolding references_def has_reference_column_def
    by (auto simp: image_iff intro!: bexI [of _ "\<lparr>col_name = n @ ''_id''\<rparr>"])
qed

text \<open>Parents that the table holds give their depths and leave the table as it is;
  parents on the current path that the table does not hold give 0.\<close>

lemma dfs_parents_visited:
  "\<forall>p \<in> set ps. v p \<noteq> None \<Longrightarrow> dfs_parents g v seen ps = Inr (map (\<lambda>p. the (v p)) ps, v)"
  by (induction ps) auto

lemma dfs_parents_seen:
  "\<forall>p \<in> set ps. v p = None \<and> p \<in> seen \<Longrightarrow> dfs_parents g v seen ps = Inr (map (\<lambda>p. 0) ps, v)"
  by (induction ps) auto

text \<open>
  \<open>dfs\<close> is a total function (its termination is proved with its definition), so the depth
  calculation returns or throws on every input. On a cycle of two entities, each with a
  column referencing the other among any other columns, the call returns when every
  inferred reference names one of the two, and both have a finite depth: the entity the
  traversal starts from, the first of the list, has depth 2 and the other one depth 1.
  Either entity can be the first.
\<close>

lemma calculateEntityDepth_cycle2:
  assumes "ent_name ea \<noteq> ent_name eb"
    and "has_reference_column ea (ent_name eb)"
    and "has_reference_column eb (ent_name ea)"
    and "refers_to_entities [ea, eb]"
  shows "calculateEntityDepth [ea, eb] False = Inr [ea\<lparr>ent_depth := 2\<rparr>, eb\<lparr>ent_depth := 1\<rparr>]"
proof -
  define a where "a = ent_name ea"
  define b where "b = ent_name eb"
  define ra where "ra = references [a, b] ea"
  define rb where "rb = references [a, b] eb"
  define g where "g = [(b, rb), (a, ra)]"
  have ab: "a \<noteq> b" using assms(1) by (simp add: a_def b_def)
  have "set ra \<subseteq> {a, b}" "set rb \<subseteq> {a, b}"
    using assms(4) by (auto simp: refers_to_entities_def list_all_iff ra_def rb_def a_def b_def)
  moreover have "a \<notin> set ra" "b \<notin> set rb"
    by (auto simp: ra_def rb_def references_def a_def b_def)
  ultimately have sra: "set ra \<subseteq> {b}" and srb: "set rb \<subseteq> {a}" by auto
  have bra: "b \<in> set ra"
    unfolding ra_def b_def using assms(2) assms(1) by (intro reference_column) (auto simp: b_def)
  have arb: "a \<in> set rb"
    unfolding rb_def a_def using assms(3) assms(1) by (intro reference_column) (auto simp: a_def)
  obtain ra' where ra: "ra = b # ra'" and sra': "set ra' \<subseteq> {b}"
    using bra sra by (cases ra) auto
  have rbn: "rb \<noteq> []" using arb by auto
  have ga: "graph_get g a = Array ra" and gb: "graph_get g b = Array rb"
    using ab by (simp_all add: g_def graph_get_def)
  have bg: "build_graph [ea, eb] = g"
    by (simp add: build_graph_def g_def ra_def rb_def a_def b_def)
  define ds0 where "ds0 = map (\<lambda>p. 0 :: nat) rb"
  have mx0: "Max (set ds0) = 0"
    using rbn by (cases rb) (simp_all add: ds0_def image_constant_conv)
  have dp0: "dfs_parents g Map.empty (insert b {a}) rb = Inr (ds0, Map.empty)"
    unfolding ds0_def using srb by (intro dfs_parents_seen) auto
  have db: "dfs g Map.empty {a} b = Inr (1, [b \<mapsto> 1])"
    using ab rbn by (simp add: gb dp0 mx0)
  define ds where "ds = 1 # map (\<lambda>p. the ([b \<mapsto> 1 :: nat] p)) ra'"
  have "map (\<lambda>p. the ([b \<mapsto> 1 :: nat] p)) ra' = map (\<lambda>p. 1) ra'"
    using sra' by (intro map_cong) auto
  then have mx: "Max (set ds) = 1"
    by (cases ra') (simp_all add: ds_def image_constant_conv)
  have "dfs_parents g [b \<mapsto> 1] {a} ra' = Inr (map (\<lambda>p. the ([b \<mapsto> 1] p)) ra', [b \<mapsto> 1])"
    using sra' by (intro dfs_parents_visited) auto
  then have dp: "dfs_parents g Map.empty (insert a {}) ra = Inr (ds, [b \<mapsto> 1])"
    using db by (simp add: ra ds_def)
  have ran: "ra \<noteq> []" by (simp add: ra)
  have da: "dfs g Map.empty {} a = Inr (2, [b \<mapsto> 1, a \<mapsto> 2])"
    using ran by (simp add: ga dp mx numeral_2_eq_2)
  have db2: "dfs g [b \<mapsto> 1, a \<mapsto> 2] {} b = Inr (1, [b \<mapsto> 1, a \<mapsto> 2])"
    using ab by simp
  have "depth_loop g Map.empty [ea, eb] = Inr [ea\<lparr>ent_depth := 2\<rparr>, eb\<lparr>ent_depth := 1\<rparr>]"
    by (simp only: depth_loop.simps a_def [symmetric] b_def [symmetric] da db2 sum.case
        prod.case)
  then show ?thesis by (simp add: calculateEntityDepth_def bg)
qed

lemma calculateEntityDepth_orders_users:
  "calculateEntityDepth [orders, users] False
     = Inr [orders\<lparr>ent_depth := 2\<rparr>, users\<lparr>ent_depth := 1\<rparr>]"
  "calculateEntityDepth [users, orders] False
     = Inr [users\<lparr>ent_depth := 2\<rparr>, orders\<lparr>ent_depth := 1\<rparr>]"
proof -
  have n: "ent_name orders \<noteq> ent_name users" and n': "ent_name users \<noteq> ent_name orders"
    by (simp_all add: orders_def users_def mk_entity_def)
  have c: "has_reference_column orders (ent_name users)"
    and c': "has_reference_column users (ent_name orders)"
    by (simp_all add: has_reference_column_def orders_def users_def mk_entity_def)
  have o: "refers_to_entities [orders, users]" and o': "refers_to_entities [users, orders]"
    by code_simp+
  show "calculateEntityDepth [orders, users] False
     = Inr [orders\<lparr>ent_depth := 2\<rparr>, users\<lparr>ent_depth := 1\<rparr>]"
    by (rule calculateEntityDepth_cycle2 [OF n c c' o])
  show "calculateEntityDepth [users, orders] False
     = Inr [users\<lparr>ent_depth := 2\<rparr>, orders\<lparr>ent_depth := 1\<rparr>]"
    by (rule calculateEntityDepth_cycle2 [OF n' c' c o'])
qed

text \<open>
  Claim C3. On a cycle of two entities the depth calculation is to return the depths 2
  and 1. It does not when a column is named after an inherited property, which the test
  \<open>nameToEntity[ref]\<close> takes for an entity although the list holds none of that name:
  with a column \<open>constructor_id\<close> next to the reference the call ends with a \<open>TypeError\<close>
  and assigns no depth, and with a column \<open>toString_id\<close> the depths are 3 and 2.
\<close>

theorem calculateEntityDepth_cycle2_throws:
  "calculateEntityDepth cycle2_constructor False = Inl TypeError \<and>
   calculateEntityDepth cycle2_toString False
     = Inr (map2 (\<lambda>e d. e\<lparr>ent_depth := d\<rparr>) cycle2_toString [3, 2])"
  by code_simp

section \<open>Properties of the type conversion\<close>

lemma toLowerCase_char_upper: "toLowerCase_char (toUpperCase_char c) = toLowerCase_char c"
  by (cases c) auto

lemma toLowerCase_toUpperCase: "toLowerCase (toUpperCase s) = toLowerCase s"
  by (simp add: toLowerCase_def toUpperCase_def toLowerCase_char_upper)

lemma integer_keys:
  "find (\<lambda>(key, v). startsWith (toLowerCase ''TINYINT'') (toLowerCase key)) dbToMySQL \<noteq> None"
  "find (\<lambda>(key, v). startsWith (toLowerCase ''SMALLINT'') (toLowerCase key)) dbToMySQL \<noteq> None"
  "find (\<lambda>(key, v). startsWith (toLowerCase ''MEDIUMINT'') (toLowerCase key)) dbToMySQL \<noteq> None"
  "find (\<lambda>(key, v). startsWith (toLowerCase ''BIGINT'') (toLowerCase key)) dbToMySQL \<noteq> None"
  "find (\<lambda>(key, v). startsWith (toLowerCase ''INTEGER'') (toLowerCase key)) dbToMySQL \<noteq> None"
  "find (\<lambda>(key, v). startsWith (toLowerCase ''INT'') (toLowerCase key)) dbToMySQL \<noteq> None"
  by code_simp+

lemma isInteger_has_key:
  assumes "isInteger type"
  shows "find (\<lambda>(key, v). startsWith (toLowerCase type) (toLowerCase key)) dbToMySQL \<noteq> None"
proof -
  have "toLowerCase type = toLowerCase (toUpperCase type)"
    by (simp add: toLowerCase_toUpperCase)
  moreover from assms have "toUpperCase type = ''TINYINT'' \<or> toUpperCase type = ''SMALLINT''
      \<or> toUpperCase type = ''MEDIUMINT'' \<or> toUpperCase type = ''BIGINT''
      \<or> toUpperCase type = ''INTEGER'' \<or> toUpperCase type = ''INT''"
    by (simp add: isInteger_def)
  ultimately show ?thesis using integer_keys by metis
qed


lemma isTinyInt1_boolean:
  assumes "isTinyInt1 type len"
  shows "toMySQLType type len enumValues = Inr ''TINYINT(1)''" and "toSqliteType type len = ''BOOLEAN''"
  using assms by (simp_all add: toMySQLType_def toSqliteType_def)

text \<open>
  Claim C7. The converter tests \<open>isTinyInt1\<close> before it reads the mapping object, so that
  \<open>BOOLEAN\<close>, \<open>BIT\<close> and \<open>TINYINT\<close> of length 1 become \<open>TINYINT(1)\<close> for MySQL and \<open>BOOLEAN\<close>
  for SQLite whatever the object holds. \<open>BOOL\<close>, which \<open>isBoolean\<close> of the same class takes
  for a boolean type, is not among the types of \<open>isTinyInt1\<close> and is no key of the
  objects: it becomes \<open>TEXT\<close> for both targets.
\<close>

theorem isTinyInt1_misses_BOOL:
  "isBoolean ''BOOL'' \<and> \<not> isTinyInt1 ''BOOL'' [] \<and>
   toMySQLType ''BOOL'' [] None = Inr ''TEXT'' \<and> toSqliteType ''BOOL'' [] = ''TEXT'' \<and>
   toMySQLType ''BOOLEAN'' [] None = Inr ''TINYINT(1)'' \<and> toSqliteType ''BOOLEAN'' [] = ''BOOLEAN'' \<and>
   toMySQLType ''BIT'' [] None = Inr ''TINYINT(1)'' \<and> toSqliteType ''BIT'' [] = ''BOOLEAN'' \<and>
   toMySQLType ''TINYINT'' ''1'' None = Inr ''TINYINT(1)'' \<and> toSqliteType ''TINYINT'' ''1'' = ''BOOLEAN''"
  by code_simp

text \<open>
  The type \<open>UUID\<close> starts with no key of \<open>dbToMySQL\<close> and is none of the special cases, and
  \<open>toMySQLType\<close> does not return it: the result is \<open>TEXT\<close>. The empty string matches no
  pattern of \<open>toMySqlType\<close>, which returns \<open>TEXT\<close> for it.
\<close>

theorem type_fallback_counterexample:
  "find (\<lambda>(key, v). startsWith (toLowerCase ''UUID'') (toLowerCase key)) dbToMySQL = None \<and>
   \<not> isTinyInt1 ''UUID'' [] \<and>
   \<not> str_includes (toUpperCase ''UUID'') ''ENUM'' \<and> \<not> str_includes (toUpperCase ''UUID'') ''SET'' \<and>
   \<not> str_includes (toUpperCase ''UUID'') ''DECIMAL'' \<and>
   \<not> str_includes (toUpperCase ''UUID'') ''NUMERIC'' \<and>
   toMySQLType ''UUID'' [] None = Inr ''TEXT'' \<and>
   toMySQLType ''UUID'' [] None \<noteq> Inr ''UUID'' \<and>
   find (\<lambda>(pattern, mysqlType). pattern_test pattern (toUpperCase (trim []))) sqlite_typeMap
     = None \<and>
   toMySqlType [] = ''TEXT''"
  by code_simp

text \<open>
  Claim C8, as amended. \<open>SQLParser.toMySqlType\<close> returns a type string unchanged when it
  is not empty and none of the patterns matches it. \<open>SQLConverter.toMySQLType\<close> returns
  \<open>TEXT\<close>, the initial value of its result, for a type that starts with no key of
  \<open>dbToMySQL\<close> and is none of the boolean, ENUM, SET, DECIMAL and NUMERIC cases.
\<close>

theorem type_fallback:
  "(sqliteType \<noteq> [] \<longrightarrow>
    find (\<lambda>(pattern, mysqlType). pattern_test pattern (toUpperCase (trim sqliteType)))
      sqlite_typeMap = None \<longrightarrow>
    toMySqlType sqliteType = sqliteType)
   \<and>
   (find (\<lambda>(key, v). startsWith (toLowerCase type) (toLowerCase key)) dbToMySQL = None \<longrightarrow>
    \<not> isTinyInt1 type len \<longrightarrow>
    \<not> str_includes (toUpperCase type) ''ENUM'' \<longrightarrow> \<not> str_includes (toUpperCase type) ''SET'' \<longrightarrow>
    \<not> str_includes (toUpperCase type) ''DECIMAL'' \<longrightarrow>
    \<not> str_includes (toUpperCase type) ''NUMERIC'' \<longrightarrow>
    toMySQLType type len enumValues = Inr ''TEXT'')"
proof (intro conjI impI)
  assume "sqliteType \<noteq> []"
    and "find (\<lambda>(pattern, mysqlType). pattern_test pattern (toUpperCase (trim sqliteType)))
      sqlite_typeMap = None"
  then show "toMySqlType sqliteType = sqliteType" by (simp add: toMySqlType_def)
next
  assume nokey: "find (\<lambda>(key, v). startsWith (toLowerCase type) (toLowerCase key)) dbToMySQL = None"
    and nb: "\<not> isTinyInt1 type len"
    and ne: "\<not> str_includes (toUpperCase type) ''ENUM''" "\<not> str_includes (toUpperCase type) ''SET''"
      "\<not> str_includes (toUpperCase type) ''DECIMAL''" "\<not> str_includes (toUpperCase type) ''NUMERIC''"
  from nokey isInteger_has_key [of type] have ni: "\<not> isInteger type" by blast
  from nokey have lk: "lookup_type dbToMySQL type = ''TEXT''" by (simp add: lookup_type_def)
  have rp: "replaceAll ''TEXT'' ''TIMESTAMPTZ'' ''TIMESTAMP'' = ''TEXT''" by code_simp
  have mt: "replaceAll (lookup_type dbToMySQL type) ''TIMESTAMPTZ'' ''TIMESTAMP'' = ''TEXT''"
    unfolding lk by (rule rp)
  show "toMySQLType type len enumValues = Inr ''TEXT''"
    unfolding toMySQLType_def mt using nb ni ne by simp
qed

theorem type_fallback_witness:
  "''UUID'' \<noteq> [] \<and>
   find (\<lambda>(pattern, mysqlType). pattern_test pattern (toUpperCase (trim ''UUID''))) sqlite_typeMap
     = None \<and>
   toMySqlType ''UUID'' = ''UUID'' \<and>
   find (\<lambda>(key, v). startsWith (toLowerCase ''MONEY'') (toLowerCase key)) dbToMySQL = None \<and>
   \<not> isTinyInt1 ''MONEY'' ''19'' \<and>
   \<not> str_includes (toUpperCase ''MONEY'') ''ENUM'' \<and> \<not> str_includes (toUpperCase ''MONEY'') ''SET'' \<and>
   \<not> str_includes (toUpperCase ''MONEY'') ''DECIMAL'' \<and>
   \<not> str_includes (toUpperCase ''MONEY'') ''NUMERIC'' \<and>
   toMySQLType ''MONEY'' ''19'' None = Inr ''TEXT''"
proof -
  have a: "''UUID'' \<noteq> []" by simp
  have b: "find (\<lambda>(pattern, mysqlType). pattern_test pattern (toUpperCase (trim ''UUID'')))
      sqlite_typeMap = None" by code_simp
  have c: "find (\<lambda>(key, v). startsWith (toLowerCase ''MONEY'') (toLowerCase key)) dbToMySQL = None"
    by code_simp
  have d: "\<not> isTinyInt1 ''MONEY'' ''19''" by code_simp
  have e: "\<not> str_includes (toUpperCase ''MONEY'') ''ENUM''" "\<not> str_includes (toUpperCase ''MONEY'') ''SET''"
    "\<not> str_includes (toUpperCase ''MONEY'') ''DECIMAL''" "\<not> str_includes (toUpperCase ''MONEY'') ''NUMERIC''"
    by code_simp+
  from type_fallback [of "''UUID''" "''MONEY''" "''19''" None] a b c d e
  show ?thesis by blast
qed

section \<open>Properties of the statement splitter\<close>

lemma replace_lf_line:
  "LF \<notin> set l \<Longrightarrow> replace_all [LF] [CR, LF] (l @ rest) = l @ replace_all [LF] [CR, LF] rest"
  by (induction l) auto

lemma replace_lf_script:
  "list_all plain_line ls \<Longrightarrow> replace_all [LF] [CR, LF] (join [LF] ls) = join [CR, LF] ls"
proof (induction ls)
  case Nil
  then show ?case by simp
next
  case (Cons x r)
  show ?case
  proof (cases r)
    case Nil
    then show ?thesis using Cons.prems replace_lf_line [of x "[]"] by (simp add: plain_line_def)
  next
    case (Cons y r')
    then show ?thesis
      using Cons.prems Cons.IH replace_lf_line [of x "LF # join [LF] (y # r')"]
      by (simp add: plain_line_def)
  qed
qed

lemma replace_crcrlf_id: "cr_before_lf s \<Longrightarrow> replace_all [CR, CR, LF] [CR, LF] s = s"
  by (induction s rule: cr_before_lf.induct) auto

lemma cr_before_lf_line:
  "CR \<notin> set l \<Longrightarrow> cr_before_lf rest \<Longrightarrow> cr_before_lf (l @ rest)"
proof (induction l)
  case Nil
  then show ?case by simp
next
  case (Cons c l)
  then show ?case by (cases "l @ rest") auto
qed

lemma cr_before_lf_script: "list_all plain_line ls \<Longrightarrow> cr_before_lf (join [CR, LF] ls)"
proof (induction ls)
  case Nil
  then show ?case by simp
next
  case (Cons x r)
  show ?case
  proof (cases r)
    case Nil
    then show ?thesis using Cons.prems cr_before_lf_line [of x "[]"] by (simp add: plain_line_def)
  next
    case (Cons y r')
    have "cr_before_lf (join [CR, LF] (y # r'))" using Cons.prems Cons.IH Cons by simp
    then have "cr_before_lf (CR # LF # join [CR, LF] (y # r'))"
      by (cases "join [CR, LF] (y # r')") auto
    then show ?thesis
      using Cons Cons.prems cr_before_lf_line [of x "CR # LF # join [CR, LF] (y # r')"]
      by (simp add: plain_line_def)
  qed
qed

lemma normalize_script:
  "list_all plain_line ls \<Longrightarrow> normalize_newlines (script ls) = join [CR, LF] ls"
  by (simp add: normalize_newlines_def script_def replace_lf_script replace_crcrlf_id
      cr_before_lf_script)

lemma split_acc_line:
  "CR \<notin> set l \<Longrightarrow> split_acc [CR, LF] cur (l @ rest) = split_acc [CR, LF] (cur @ l) rest"
  by (induction l arbitrary: cur) auto

lemma split_acc_script:
  "list_all plain_line ls \<Longrightarrow> ls \<noteq> [] \<Longrightarrow>
   split_acc [CR, LF] cur (join [CR, LF] ls) = (cur @ hd ls) # tl ls"
proof (induction ls arbitrary: cur)
  case Nil
  then show ?case by simp
next
  case (Cons x r)
  show ?case
  proof (cases r)
    case Nil
    then show ?thesis using Cons.prems split_acc_line [of x cur "[]"] by (simp add: plain_line_def)
  next
    case (Cons y r')
    have "split_acc [CR, LF] [] (join [CR, LF] (y # r')) = y # r'"
      using Cons.prems Cons.IH [of "[]"] Cons by simp
    then show ?thesis
      using Cons Cons.prems split_acc_line [of x cur "CR # LF # join [CR, LF] (y # r')"]
      by (simp add: plain_line_def)
  qed
qed

lemma first_pass_script:
  assumes "list_all plain_line ls"
  shows "first_pass (split (normalize_newlines (script ls)) [CR, LF]) = first_pass ls"
proof (cases ls)
  case Nil
  then show ?thesis
    by (simp add: script_def normalize_newlines_def split_def first_pass_def kept_line_def trim_def)
next
  case (Cons l r)
  then show ?thesis
    using assms split_acc_script [of ls "[]"] by (simp add: normalize_script split_def)
qed

lemma first_pass_dropped:
  "dropped_line c \<Longrightarrow> first_pass (xs @ c # ys) = first_pass (xs @ ys)"
  by (auto simp: first_pass_def dropped_line_def kept_line_def)

text \<open>
  Every line whose trimmed content begins with \<open>-- \<close> or is \<open>--\<close>, and every blank line,
  is discarded before the statements are assembled: a script gives the same statements
  with such a line as without it. (The lines of the script hold no line ends of their
  own.)
\<close>

lemma parseSQL_drops_lines:
  assumes "list_all plain_line (xs @ c # ys)" and "dropped_line c"
  shows "parseSQL (script (xs @ c # ys)) = parseSQL (script (xs @ ys))"
proof -
  have "list_all plain_line (xs @ ys)" using assms(1) by simp
  then show ?thesis
    using assms by (simp add: parseSQL_def first_pass_script first_pass_dropped)
qed

lemma parseSQL_comment_line:
  "parseSQL (script ([''SELECT 1''] @ ''  -- the table'' # [''FROM t;'']))
     = Inr [(''SELECT 1'' @ [CR, LF] @ ''FROM t'', '';'')]"
proof -
  have a: "list_all plain_line ([''SELECT 1''] @ ''  -- the table'' # [''FROM t;''])"
    by (simp add: plain_line_def)
  have b: "dropped_line ''  -- the table''" by code_simp
  have c: "parseSQL (script ([''SELECT 1''] @ [''FROM t;'']))
     = Inr [(''SELECT 1'' @ [CR, LF] @ ''FROM t'', '';'')]" by code_simp
  show ?thesis using parseSQL_drops_lines [OF a b] c by simp
qed

text \<open>
  The second pass has a branch for an empty line, which adds a line break to the statement
  in progress. No line reaches it: the first pass keeps no empty line, and on any other
  line the branch does nothing.
\<close>

lemma first_pass_no_blank: "list_all (\<lambda>text. text \<noteq> []) (first_pass arr)"
  by (simp add: first_pass_def kept_line_def list_all_iff)

lemma blank_step_dead: "text \<noteq> [] \<Longrightarrow> blank_step st text = st"
  by (simp add: blank_step_def)

text \<open>
  Claim C9. Comment lines are discarded, as the claim says. A blank line inside a
  statement in progress is to stay as a line break in the text of the statement, and it
  does not: the statement \<open>SELECT 1\<close>, blank line, \<open>FROM t;\<close> comes out with its two lines
  one line break apart, exactly as the statement without the blank line does.
\<close>

theorem parseSQL_blank_line_lost:
  "parseSQL (''SELECT 1'' @ [LF, LF] @ ''FROM t;'')
     = Inr [(''SELECT 1'' @ [CR, LF] @ ''FROM t'', '';'')] \<and>
   parseSQL (''SELECT 1'' @ [LF] @ ''FROM t;'')
     = Inr [(''SELECT 1'' @ [CR, LF] @ ''FROM t'', '';'')]"
  by code_simp

section \<open>Properties of the table parser\<close>

lemma set_keys_name_flag: "map name_flag (set_keys k fl) = map name_flag fl"
  by (induction fl) (simp_all add: set_keys_def name_flag_def)

text \<open>The passes over the keys leave the names, the flags and the list of the names alone.\<close>

lemma primaryKey_pass_flags:
  "map name_flag (fieldList (primaryKey_pass st)) = map name_flag (fieldList st)"
  "columnList (primaryKey_pass st) = columnList st"
  by (simp_all add: primaryKey_pass_def Let_def set_keys_name_flag split: option.splits)

lemma rg_pk2_pass_flags:
  "map name_flag (fieldList (rg_pk2_pass st f)) = map name_flag (fieldList st)"
  "columnList (rg_pk2_pass st f) = columnList st"
  by (simp_all add: rg_pk2_pass_def Let_def set_keys_name_flag split: prod.splits)

lemma composite_pass_flags:
  "map name_flag (fieldList (composite_pass st line)) = map name_flag (fieldList st)"
  "columnList (composite_pass st line) = columnList st"
  by (simp_all add: composite_pass_def Let_def set_keys_name_flag split: option.splits prod.splits)

lemma constraint_step_flags:
  "fieldList (constraint_step st f) = fieldList st"
  "columnList (constraint_step st f) = columnList st"
  by (simp_all add: constraint_step_def)

lemma column_step_flags:
  "map name_flag (fieldList (column_step st line n t a))
     = map name_flag (fieldList st)
       @ (if List.member (columnList st) n then [] else [(n, isAutoIncrement line)])"
  "columnList (column_step st line n t a)
     = (if List.member (columnList st) n then columnList st else columnList st @ [n])"
  by (simp_all add: column_step_def Let_def name_flag_def)

lemma field_step_flags:
  assumes "field_step st f = Inr st'"
  shows "map name_flag (fieldList st') @ fragment_flags (columnList st') fs
       = map name_flag (fieldList st) @ fragment_flags (columnList st) (f # fs)"
proof (cases "search rg_fld2_at f")
  case None
  with assms show ?thesis by (simp add: field_step_def)
next
  case (Some r)
  then obtain at fname ftype fattr where r: "search rg_fld2_at f = Some (at, fname, ftype, fattr)"
    by (cases r) auto
  define st1 where "st1 = (if isValidType ftype
      then column_step st (line_ends_to_space f) (trim fname) ftype fattr
      else if isPrimaryKey (line_ends_to_space f) then constraint_step st f else st)"
  have st': "st' = composite_pass (rg_pk2_pass (primaryKey_pass st1) f) (line_ends_to_space f)"
    using assms r by (simp add: field_step_def Let_def st1_def)
  have a: "map name_flag (fieldList st') = map name_flag (fieldList st1)"
    and b: "columnList st' = columnList st1"
    unfolding st' by (simp_all add: composite_pass_flags rg_pk2_pass_flags primaryKey_pass_flags)
  show ?thesis
    unfolding a b
    by (simp add: st1_def r column_step_flags constraint_step_flags)
qed

lemma field_loop_flags:
  "field_loop st fs = Inr st'
   \<Longrightarrow> map name_flag (fieldList st') = map name_flag (fieldList st) @ fragment_flags (columnList st) fs"
proof (induction fs arbitrary: st)
  case Nil
  then show ?case by simp
next
  case (Cons f fs)
  from Cons.prems obtain st1 where s: "field_step st f = Inr st1" and l: "field_loop st1 fs = Inr st'"
    by (cases "field_step st f") auto
  from Cons.IH [OF l] field_step_flags [OF s, of fs] show ?case by simp
qed

text \<open>
  The example tables are the texts that \<open>parseAll\<close> hands to \<open>parseTable\<close>: what
  \<open>formatSQL\<close> makes of the statements, which \<open>parseSQL\<close> delivers without their
  delimiter.
\<close>

lemma formatSQL_examples:
  "formatSQL ''CREATE TABLE t (id INTEGER PRIMARY KEY AUTOINCREMENT, code INTEGER PRIMARY KEY)''
     = two_key_table"
  "formatSQL ''CREATE TABLE t (id INT, name TEXT, PRIMARY KEY (id))'' = table_level_key"
  by code_simp+

lemma parseSQL_examples:
  "parseSQL ''CREATE TABLE t (id INTEGER PRIMARY KEY AUTOINCREMENT, code INTEGER PRIMARY KEY);''
     = Inr [(''CREATE TABLE t (id INTEGER PRIMARY KEY AUTOINCREMENT, code INTEGER PRIMARY KEY)'',
             '';'')]"
  "parseSQL ''CREATE TABLE t (id INT, name TEXT, PRIMARY KEY (id));''
     = Inr [(''CREATE TABLE t (id INT, name TEXT, PRIMARY KEY (id))'', '';'')]"
  by code_simp+

lemma parseTable_examples:
  "parseTable two_key_table = Inr two_key_result"
  "parseTable table_level_key = Inr
     \<lparr>tableName = ''t'',
      columns = [\<lparr>Field = ''id'', Type = ''INT'', Key = True, Nullable = True,
                  AutoIncrement = False\<rparr>,
                 \<lparr>Field = ''name'', Type = ''TEXT'', Key = False, Nullable = True,
                  AutoIncrement = False\<rparr>],
      tablePrimaryKey = Some ''id''\<rparr>"
  by code_simp+

lemma parseAll_examples:
  "parseAll ''CREATE TABLE t (id INTEGER PRIMARY KEY AUTOINCREMENT, code INTEGER PRIMARY KEY);''
     = Inr [two_key_result]"
  "parseAll ''CREATE TABLE t (id INT, name TEXT, PRIMARY KEY (id));'' = Inr
     [\<lparr>tableName = ''t'',
       columns = [\<lparr>Field = ''id'', Type = ''INT'', Key = True, Nullable = True,
                   AutoIncrement = False\<rparr>,
                  \<lparr>Field = ''name'', Type = ''TEXT'', Key = False, Nullable = True,
                   AutoIncrement = False\<rparr>],
       tablePrimaryKey = Some ''id''\<rparr>]"
  unfolding parseAll_def parseSQL_examples
  by (simp_all add: List.map_filter_simps formatSQL_examples parseTable_examples)

text \<open>The branch of a column definition keeps the rule that a key column is not nullable.\<close>

lemma column_step_key_not_nullable:
  assumes "list_all (\<lambda>c. Key c \<longrightarrow> \<not> Nullable c) (fieldList st)"
  shows "list_all (\<lambda>c. Key c \<longrightarrow> \<not> Nullable c) (fieldList (column_step st line n t a))"
  using assms by (simp add: column_step_def Let_def)

text \<open>
  Claim C4, as amended. In the DDL table parser the auto-increment flag of a column is
  what the text says that \<open>rg_fld\<close> matched for the column: the columns of the result
  are, in order, the matches with a valid type and a name not met before, and
  \<open>AutoIncrement\<close> is true exactly when that text holds one of the markers
  \<open>AUTO_INCREMENT\<close>, \<open>AUTOINCREMENT\<close>, \<open>SERIAL\<close>, \<open>BIGSERIAL\<close> or \<open>NEXTVAL\<close>. Neither an earlier
  auto-increment column nor the number of primary-key columns enters the flag. The match
  ends with the line for most types and with the type for \<open>ENUM\<close>, \<open>SET\<close>, \<open>NUMERIC\<close>,
  \<open>DECIMAL\<close>, \<open>BIGSERIAL\<close>, \<open>SERIAL4\<close> and \<open>SERIAL8\<close>, so that a marker behind
  \<open>NUMERIC(10)\<close> is not seen.
\<close>

theorem parseTable_autoIncrement:
  assumes "parseTable sql = Inr tbl"
  shows "map name_flag (columns tbl) = fragment_flags [] (rg_fld_matches 0 (replaced_max sql))"
proof -
  obtain st where
    l: "field_loop initial_table_state (rg_fld_matches 0 (replaced_max sql)) = Inr st"
    and c: "columns tbl = fieldList st \<or> (\<exists>k. columns tbl = updatePrimaryKey (fieldList st) k)"
  proof (cases "field_loop initial_table_state (rg_fld_matches 0 (replaced_max sql))")
    case (Inl e)
    with assms show ?thesis
      by (simp add: parseTable_def replaced_max_def Let_def split: option.splits)
  next
    case (Inr st)
    with assms have "columns tbl = fieldList st
        \<or> (\<exists>k. columns tbl = updatePrimaryKey (fieldList st) k)"
      by (auto simp: parseTable_def replaced_max_def Let_def split: option.splits if_splits)
    with Inr that show ?thesis by blast
  qed
  from c have "map name_flag (columns tbl) = map name_flag (fieldList st)"
    by (auto simp: updatePrimaryKey_def set_keys_name_flag)
  with field_loop_flags [OF l] show ?thesis by (simp add: initial_table_state_def)
qed

theorem parseTable_autoIncrement_witness:
  "parseTable numeric_table = Inr numeric_result \<and>
   rg_fld_matches 0 (replaced_max numeric_table)
     = [''id NUMERIC(10)'', ''code INTEGER AUTO_INCREMENT)''] \<and>
   map name_flag (columns numeric_result)
     = fragment_flags [] [''id NUMERIC(10)'', ''code INTEGER AUTO_INCREMENT)''] \<and>
   map name_flag (columns numeric_result) = [(''id'', False), (''code'', True)]"
proof -
  have v: "parseTable numeric_table = Inr numeric_result" by code_simp
  have m: "rg_fld_matches 0 (replaced_max numeric_table)
      = [''id NUMERIC(10)'', ''code INTEGER AUTO_INCREMENT)'']" by code_simp
  have f: "map name_flag (columns numeric_result) = [(''id'', False), (''code'', True)]"
    by (simp add: numeric_result_def name_flag_def)
  show ?thesis using v m f parseTable_autoIncrement [OF v] by simp
qed

text \<open>
  The column \<open>id INTEGER PRIMARY KEY AUTOINCREMENT\<close> of a table whose two columns both
  carry a primary-key marker is classified \<open>AutoIncrement = True\<close>.
\<close>

theorem parseTable_two_keys_counterexample:
  "parseTable two_key_table = Inr
     \<lparr>tableName = ''t'',
      columns = [\<lparr>Field = ''id'', Type = ''INTEGER'', Key = True, Nullable = False,
                  AutoIncrement = True\<rparr>,
                 \<lparr>Field = ''code'', Type = ''INTEGER'', Key = True, Nullable = False,
                  AutoIncrement = False\<rparr>],
      tablePrimaryKey = Some ''id''\<rparr>"
  by code_simp

text \<open>
  Claim C5. A column that the parser flags as primary key inline gets \<open>Nullable = False\<close>.
  The later passes, which flag the columns named by a table-level \<open>PRIMARY KEY (...)\<close>
  line, set \<open>Key\<close> and leave \<open>Nullable\<close> as it is: in the table
  \<open>CREATE TABLE t (id INT, name TEXT, PRIMARY KEY (id))\<close>, formatted by \<open>formatSQL\<close>, the
  column \<open>id\<close> comes out with \<open>Key = True\<close> and \<open>Nullable = True\<close>.
\<close>

theorem parseTable_key_nullable:
  "parseTable table_level_key = Inr
     \<lparr>tableName = ''t'',
      columns = [\<lparr>Field = ''id'', Type = ''INT'', Key = True, Nullable = True,
                  AutoIncrement = False\<rparr>,
                 \<lparr>Field = ''name'', Type = ''TEXT'', Key = False, Nullable = True,
                  AutoIncrement = False\<rparr>],
      tablePrimaryKey = Some ''id''\<rparr>"
  by code_simp

section \<open>Properties of the INSERT parser\<close>

lemma row_to_object_empty: "row_to_object [] vals = []"
  by (simp add: row_to_object_def)

lemma insert_property_name: "array_index k = None \<Longrightarrow> insert_property obj k v = obj @ [(k, v)]"
  by (induction obj) auto

lemma set_property_new:
  "k \<notin> fst ` set obj \<Longrightarrow> array_index k = None \<Longrightarrow> set_property obj k v = obj @ [(k, v)]"
  by (simp add: set_property_def insert_property_name)

lemma row_to_object_prefix:
  assumes "distinct cols" "list_all (\<lambda>k. array_index k = None \<and> k \<noteq> ''__proto__'') cols"
  shows "n \<le> length cols \<Longrightarrow>
   foldl (\<lambda>ob i. assign ob (cols ! i) (element vals i)) ([], True) [0 ..< n]
   = (map (\<lambda>i. (cols ! i, element vals i)) [0 ..< n], True)"
proof (induction n)
  case 0
  then show ?case by simp
next
  case (Suc n)
  have "cols ! n \<notin> fst ` set (map (\<lambda>i. (cols ! i, element vals i)) [0 ..< n])"
    using Suc.prems assms(1) by (auto simp: nth_eq_iff_index_eq)
  moreover have "array_index (cols ! n) = None" "cols ! n \<noteq> ''__proto__''"
    using Suc.prems assms(2) by (auto simp: list_all_length)
  ultimately show ?case using Suc by (simp add: assign_def set_property_new)
qed

text \<open>With distinct column names, none of them an array index or \<open>__proto__\<close>, a row object
  pairs each name with the value at its position, in the order of the columns.\<close>

lemma row_to_object_zip:
  assumes "distinct cols" "list_all (\<lambda>k. array_index k = None \<and> k \<noteq> ''__proto__'') cols"
    and "length vals = length cols"
  shows "row_to_object cols vals = zip cols (map Some vals)"
proof -
  have "row_to_object cols vals = map (\<lambda>i. (cols ! i, element vals i)) [0 ..< length cols]"
    using row_to_object_prefix [OF assms(1) assms(2), of "length cols" vals]
    by (simp add: row_to_object_def)
  also have "\<dots> = zip cols (map Some vals)"
    using assms(3) by (intro nth_equalityI) (simp_all add: element_def)
  finally show ?thesis .
qed

text \<open>
  The names that are array indices come first, a second assignment to a name keeps its
  place, and \<open>__proto__\<close> stores a property only after \<open>null\<close> was assigned to it.
\<close>

lemma row_to_object_order:
  "row_to_object [''b'', ''10'', ''a'', ''2'', ''b'', ''01''] [JNum 1, JNum 2, JNum 3, JNum 4, JNum 5, JNum 6]
     = [(''2'', Some (JNum 4)), (''10'', Some (JNum 2)), (''b'', Some (JNum 5)),
        (''a'', Some (JNum 3)), (''01'', Some (JNum 6))]"
  "row_to_object [''id'', ''__proto__''] [JNum 1, JStr ''x''] = [(''id'', Some (JNum 1))]"
  "row_to_object [''__proto__'', ''id'', ''__proto__''] [JNull, JNum 1, JNum 2]
     = [(''id'', Some (JNum 1)), (''__proto__'', Some (JNum 2))]"
  by code_simp+

text \<open>
  Claim C10. With a list of columns the values of each row are paired with the names by
  position. Without one the loop over the column names does not run: every row becomes
  the empty object, whatever values \<open>parseRow\<close> found, and the result holds no value
  arrays; \<open>INSERT INTO t VALUES (1, 'a')\<close> gives the single row \<open>{}\<close>.
\<close>

theorem parseInsertQuery_no_columns:
  "row_to_object [] vals = [] \<and>
   parseInsertQuery ''INSERT INTO t VALUES (1, 'a')''
     = Inr (Some \<lparr>ins_tableName = ''t'', ins_columns = [], ins_rows = [[]]\<rparr>) \<and>
   parseRow (''1, 'a'' @ [SQ]) = [JNum 1, JStr ''a''] \<and>
   parseInsertQuery ''INSERT INTO orders (id, customer_id) VALUES (1,1),(2,1)''
     = Inr (Some \<lparr>ins_tableName = ''orders'', ins_columns = [''id'', ''customer_id''],
                   ins_rows = [[(''id'', Some (JNum 1)), (''customer_id'', Some (JNum 1))],
                               [(''id'', Some (JNum 2)), (''customer_id'', Some (JNum 1))]]\<rparr>)"
proof (intro conjI)
  show "row_to_object [] vals = []" by (rule row_to_object_empty)
  show "parseInsertQuery ''INSERT INTO t VALUES (1, 'a')''
     = Inr (Some \<lparr>ins_tableName = ''t'', ins_columns = [], ins_rows = [[]]\<rparr>)"
    by code_simp
  show "parseRow (''1, 'a'' @ [SQ]) = [JNum 1, JStr ''a'']" by code_simp
  show "parseInsertQuery ''INSERT INTO orders (id, customer_id) VALUES (1,1),(2,1)''
     = Inr (Some \<lparr>ins_tableName = ''orders'', ins_columns = [''id'', ''customer_id''],
                   ins_rows = [[(''id'', Some (JNum 1)), (''customer_id'', Some (JNum 1))],
                               [(''id'', Some (JNum 2)), (''customer_id'', Some (JNum 1))]]\<rparr>)"
    by code_simp
qed

end
